theory Spec2Isabelle
  imports Complex_Main "HOL-Library.Word"
begin

section \<open>Values, exceptions and interval timers\<close>

text \<open>
  The runtime protection layer of Secure Tasks: \<open>security/antiDebug.js\<close>,
  \<open>security/domGuard.js\<close>, \<open>security/selfDefend.js\<close> and the part of \<open>app.js\<close> that
  starts them and locks the page.

  A JavaScript exception is a value of \<open>exn\<close>; an expression that may throw has a
  result of type \<open>'a js\<close>, with \<open>Inl\<close> for the exception. Console output is not
  modelled, except for the line \<open>lockApp\<close> prints, which is kept as the trace of lock
  actions. Callbacks are state transformers of a host state \<open>'h\<close>; they take the reason
  code and do not throw.
\<close>

datatype exn = Thrown string

type_synonym 'a js = "exn + 'a"

type_synonym reason = string

definition bindJ :: "'a js \<Rightarrow> ('a \<Rightarrow> 'b js) \<Rightarrow> 'b js" where
  "bindJ m f = (case m of Inl e \<Rightarrow> Inl e | Inr v \<Rightarrow> f v)"

text \<open>
  The value of a property of the config object passed to a start function. A property
  that is not set reads as \<open>Undefined\<close>; \<open>typeof v === 'function'\<close> holds for \<open>Fn\<close> only.
\<close>

datatype 'h jsval = Undefined | Num int | Fn "reason \<Rightarrow> 'h \<Rightarrow> 'h"

type_synonym 'h config = "string \<rightharpoonup> 'h jsval"

definition getProp :: "'h config \<Rightarrow> string \<Rightarrow> 'h jsval" where
  "getProp config k = (case config k of None \<Rightarrow> Undefined | Some v \<Rightarrow> v)"

text \<open>
  The browser's interval timers: the active ones with their period in milliseconds, the
  next identifier \<open>window.setInterval\<close> hands out, and the identifiers passed to
  \<open>clearInterval\<close> so far, in order. \<open>host\<close> is the state the callbacks act on.
\<close>

record 'h sys =
  timers :: "(nat \<times> nat) list"
  nextId :: nat
  cleared :: "nat list"
  host :: 'h

definition setInterval :: "nat \<Rightarrow> 'h sys \<Rightarrow> nat \<times> 'h sys" where
  "setInterval ms s =
     (nextId s, s\<lparr>timers := timers s @ [(nextId s, ms)], nextId := Suc (nextId s)\<rparr>)"

definition clearInterval :: "nat \<Rightarrow> 'h sys \<Rightarrow> 'h sys" where
  "clearInterval i s =
     s\<lparr>timers := filter (\<lambda>t. fst t \<noteq> i) (timers s), cleared := cleared s @ [i]\<rparr>"

text \<open>
  The two closure variables every detector keeps: \<open>already\<close> is \<open>alreadyDetected\<close>,
  \<open>alreadyTriggered\<close> or \<open>alreadyFailed\<close>; \<open>intervalId\<close> is \<open>None\<close> for \<open>null\<close>.
\<close>

record latch =
  already :: bool
  intervalId :: "nat option"

definition newLatch :: latch where
  "newLatch = \<lparr>already = False, intervalId = None\<rparr>"

section \<open>antiDebug.js\<close>

definition DETECTION_INTERVAL_MS :: nat where
  "DETECTION_INTERVAL_MS = 3000"

definition SIZE_THRESHOLD :: int where
  "SIZE_THRESHOLD = 160"

text \<open>
  A reading of \<open>performance.now()\<close> is a finite double: the number
  \<open>significand * 2 ^ exponent\<close>, with a significand of at most 53 bits. The subtraction
  of two doubles is their exact difference rounded to 53 significant bits, to the
  nearest value and on a tie to the one with the even significand (a difference of at
  most 53 bits is kept as it is: the subtraction of natural numbers in \<open>roundDouble\<close>
  stops at 0); \<open>dgt d n\<close> is the comparison \<open>d > n\<close> with an integer. The readings are milliseconds since the page was
  loaded, so the difference neither overflows nor falls below the normal range, and
  neither case is modelled.
\<close>

record double =
  significand :: int
  exponent :: int

fun bitLength :: "nat \<Rightarrow> nat" where
  "bitLength n = (if n = 0 then 0 else Suc (bitLength (n div 2)))"

declare bitLength.simps [simp del]

definition roundToNearestEven :: "int \<Rightarrow> nat \<Rightarrow> int" where
  "roundToNearestEven m k =
     (let q = m div 2 ^ k; r = m mod 2 ^ k
      in if 2 * r > 2 ^ k \<or> (2 * r = 2 ^ k \<and> odd q) then q + 1 else q)"

definition roundDouble :: "int \<Rightarrow> int \<Rightarrow> double" where
  "roundDouble m e =
     (let k = bitLength (nat \<bar>m\<bar>) - 53
      in \<lparr>significand = roundToNearestEven m k, exponent = e + int k\<rparr>)"

definition dsub :: "double \<Rightarrow> double \<Rightarrow> double" where
  "dsub a b =
     (let e = min (exponent a) (exponent b);
          m = significand a * 2 ^ nat (exponent a - e) - significand b * 2 ^ nat (exponent b - e)
      in roundDouble m e)"

definition dgt :: "double \<Rightarrow> int \<Rightarrow> bool" where
  "dgt d n =
     (if 0 \<le> exponent d then n < significand d * 2 ^ nat (exponent d)
      else n * 2 ^ nat (- exponent d) < significand d)"

text \<open>
  What the heuristics read: the four window dimensions, and the two readings of
  \<open>performance.now()\<close> before and after the \<open>debugger\<close> statement. Each read may throw.
\<close>

record window =
  outerWidth :: "int js"
  innerWidth :: "int js"
  outerHeight :: "int js"
  innerHeight :: "int js"
  perfStart :: "double js"
  perfEnd :: "double js"

definition isDevToolsOpenBySize :: "window \<Rightarrow> bool js" where
  "isDevToolsOpenBySize w =
     bindJ (outerWidth w) (\<lambda>ow. bindJ (innerWidth w) (\<lambda>iw.
     bindJ (outerHeight w) (\<lambda>oh. bindJ (innerHeight w) (\<lambda>ih.
       let widthDiff = ow - iw; heightDiff = oh - ih
       in Inr (widthDiff > SIZE_THRESHOLD \<or> heightDiff > SIZE_THRESHOLD)))))"

definition isDevToolsOpenByTiming :: "window \<Rightarrow> bool js" where
  "isDevToolsOpenByTiming w =
     bindJ (perfStart w) (\<lambda>start. bindJ (perfEnd w) (\<lambda>end.
       let delta = dsub end start in Inr (dgt delta 100)))"

definition triggerDetection :: "'h jsval \<Rightarrow> reason \<Rightarrow> latch \<times> 'h sys \<Rightarrow> latch \<times> 'h sys" where
  "triggerDetection onDetected reason st =
     (case st of (l, s) \<Rightarrow>
        if already l then (l, s)
        else
          let l1 = l\<lparr>already := True\<rparr>;
              (l2, s2) = (case intervalId l1 of
                            None \<Rightarrow> (l1, s)
                          | Some i \<Rightarrow> (l1\<lparr>intervalId := None\<rparr>, clearInterval i s))
          in (l2, case onDetected of
                    Fn f \<Rightarrow> s2\<lparr>host := f reason (host s2)\<rparr>
                  | _ \<Rightarrow> s2))"

text \<open>The \<open>try\<close> block of \<open>runChecks\<close>, then the routine with its \<open>catch\<close>.\<close>

definition runChecksTry :: "'h jsval \<Rightarrow> window \<Rightarrow> latch \<times> 'h sys \<Rightarrow> (latch \<times> 'h sys) js" where
  "runChecksTry onDetected w st =
     bindJ (isDevToolsOpenBySize w) (\<lambda>bySize.
       if bySize then Inr (triggerDetection onDetected ''window-size-heuristic'' st)
       else bindJ (isDevToolsOpenByTiming w) (\<lambda>byTiming.
         if byTiming then Inr (triggerDetection onDetected ''timing-debugger-heuristic'' st)
         else Inr st))"

definition runChecks :: "'h jsval \<Rightarrow> window \<Rightarrow> latch \<times> 'h sys \<Rightarrow> latch \<times> 'h sys" where
  "runChecks onDetected w st =
     (case runChecksTry onDetected w st of Inl err \<Rightarrow> st | Inr st' \<Rightarrow> st')"

text \<open>The function handed to \<open>setInterval\<close>.\<close>

definition antiDebugTick :: "'h jsval \<Rightarrow> window \<Rightarrow> latch \<times> 'h sys \<Rightarrow> latch \<times> 'h sys" where
  "antiDebugTick onDetected w st =
     (if \<not> already (fst st) then runChecks onDetected w st else st)"

definition startAntiDebug :: "'h config \<Rightarrow> window \<Rightarrow> 'h sys \<Rightarrow> latch \<times> 'h sys" where
  "startAntiDebug config w s =
     (let onDetected = getProp config ''onDetected'';
          (l1, s1) = runChecks onDetected w (newLatch, s);
          (i, s2) = setInterval DETECTION_INTERVAL_MS s1
      in (l1\<lparr>intervalId := Some i\<rparr>, s2))"

section \<open>domGuard.js\<close>

definition CHECK_INTERVAL_MS :: nat where
  "CHECK_INTERVAL_MS = 3000"

definition TEXT_CHANGE_FACTOR :: real where
  "TEXT_CHANGE_FACTOR = 3"

definition PROTECTED_SELECTORS :: "string list" where
  "PROTECTED_SELECTORS = [''.app-main'', ''#task-form'', ''.task-filters'', ''#task-list'']"

text \<open>
  An element is its \<open>textContent\<close> (\<open>None\<close> for \<open>null\<close>); the document is what
  \<open>document.querySelector\<close> returns for a selector: an exception, no element, or one.
\<close>

record element =
  textContent :: "string option"

type_synonym document = "string \<Rightarrow> element option js"

record snapshotItem =
  selector :: string
  exists :: bool
  textLength :: nat

definition textLen :: "element \<Rightarrow> nat" where
  "textLen el = length (case textContent el of None \<Rightarrow> [] | Some t \<Rightarrow> t)"

fun snapshotLoop :: "string list \<Rightarrow> document \<Rightarrow> snapshotItem list \<Rightarrow> snapshotItem list js" where
  "snapshotLoop [] doc snapshot = Inr snapshot"
| "snapshotLoop (sel # rest) doc snapshot =
     (case doc sel of
        Inl e \<Rightarrow> Inl e
      | Inr el \<Rightarrow>
          snapshotLoop rest doc
            (snapshot @ [\<lparr>selector = sel, exists = (el \<noteq> None),
                          textLength = (case el of None \<Rightarrow> 0 | Some x \<Rightarrow> textLen x)\<rparr>]))"

definition snapshotDom :: "document \<Rightarrow> snapshotItem list js" where
  "snapshotDom doc = snapshotLoop PROTECTED_SELECTORS doc []"

text \<open>
  The quotient of the two lengths, as computed in the loop body of \<open>isTampered\<close>. The
  division is taken in the reals; the lengths of strings are far below \<open>2 ^ 53\<close>, where
  the comparison of the quotient with 3 comes out the same in double precision.
\<close>

definition ratio :: "nat \<Rightarrow> nat \<Rightarrow> real" where
  "ratio currentTextLength textLength0 =
     (let maxLen = max 1 textLength0
      in if currentTextLength > maxLen
         then real currentTextLength / real maxLen
         else real maxLen / real (max 1 currentTextLength))"

fun isTampered :: "snapshotItem list \<Rightarrow> document \<Rightarrow> bool js" where
  "isTampered [] doc = Inr False"
| "isTampered (item # rest) doc =
     (case doc (selector item) of
        Inl e \<Rightarrow> Inl e
      | Inr el \<Rightarrow>
          if exists item \<and> el = None then Inr True
          else if exists item
                  \<and> (case el of
                         None \<Rightarrow> False
                       | Some x \<Rightarrow> ratio (textLen x) (textLength item) > TEXT_CHANGE_FACTOR)
               then Inr True
               else isTampered rest doc)"

definition triggerTamper :: "'h jsval \<Rightarrow> reason \<Rightarrow> latch \<times> 'h sys \<Rightarrow> latch \<times> 'h sys" where
  "triggerTamper onTamper reason st =
     (case st of (l, s) \<Rightarrow>
        if already l then (l, s)
        else
          let l1 = l\<lparr>already := True\<rparr>;
              (l2, s2) = (case intervalId l1 of
                            None \<Rightarrow> (l1, s)
                          | Some i \<Rightarrow> (l1\<lparr>intervalId := None\<rparr>, clearInterval i s))
          in (l2, case onTamper of
                    Fn f \<Rightarrow> s2\<lparr>host := f reason (host s2)\<rparr>
                  | _ \<Rightarrow> s2))"

definition domGuardRunCheckTry ::
    "'h jsval \<Rightarrow> snapshotItem list \<Rightarrow> document \<Rightarrow> latch \<times> 'h sys \<Rightarrow> (latch \<times> 'h sys) js" where
  "domGuardRunCheckTry onTamper initialSnapshot doc st =
     bindJ (isTampered initialSnapshot doc) (\<lambda>tampered.
       if tampered then Inr (triggerTamper onTamper ''snapshot-mismatch'' st) else Inr st)"

definition domGuardRunCheck ::
    "'h jsval \<Rightarrow> snapshotItem list \<Rightarrow> document \<Rightarrow> latch \<times> 'h sys \<Rightarrow> latch \<times> 'h sys" where
  "domGuardRunCheck onTamper initialSnapshot doc st =
     (case domGuardRunCheckTry onTamper initialSnapshot doc st of
        Inl err \<Rightarrow> st
      | Inr st' \<Rightarrow> st')"

definition domGuardTick ::
    "'h jsval \<Rightarrow> snapshotItem list \<Rightarrow> document \<Rightarrow> latch \<times> 'h sys \<Rightarrow> latch \<times> 'h sys" where
  "domGuardTick onTamper initialSnapshot doc st =
     (if \<not> already (fst st) then domGuardRunCheck onTamper initialSnapshot doc st else st)"

text \<open>\<open>snapshotDom()\<close> runs outside the \<open>try\<close>, so \<open>startDomGuard\<close> may throw.\<close>

definition startDomGuard ::
    "'h config \<Rightarrow> document \<Rightarrow> 'h sys \<Rightarrow> (snapshotItem list \<times> latch \<times> 'h sys) js" where
  "startDomGuard config doc s =
     (let onTamper = getProp config ''onTamper''
      in bindJ (snapshotDom doc) (\<lambda>initialSnapshot.
           let (l1, s1) = domGuardRunCheck onTamper initialSnapshot doc (newLatch, s);
               (i, s2) = setInterval CHECK_INTERVAL_MS s1
           in Inr (initialSnapshot, l1\<lparr>intervalId := Some i\<rparr>, s2)))"

section \<open>selfDefend.js\<close>

text \<open>
  A JavaScript string is a sequence of UTF-16 code units, which \<open>charCodeAt\<close> reads;
  \<open>utf16\<close> writes an ASCII literal as one.
\<close>

type_synonym jsstring = "16 word list"

definition utf16 :: "string \<Rightarrow> jsstring" where
  "utf16 s = map of_char s"

definition SELFDEFEND_CHECK_INTERVAL_MS :: nat where
  "SELFDEFEND_CHECK_INTERVAL_MS = 4000"

text \<open>\<open>(hash + str.charCodeAt(i)) >>> 0\<close> is addition modulo \<open>2 ^ 32\<close>.\<close>

definition simpleHash :: "jsstring \<Rightarrow> 32 word" where
  "simpleHash str = foldl (\<lambda>hash c. hash + ucast c) 0 str"

text \<open>
  A truthy value that may stand behind the handle: a function, which \<open>toString()\<close>
  serializes to its source text, or any other value, given by what its \<open>toString()\<close>
  call yields (an exception when it throws or is not callable).
\<close>

datatype jsobj = Function jsstring | Other "jsstring js"

definition toStringJ :: "jsobj \<Rightarrow> jsstring js" where
  "toStringJ v = (case v of Function src \<Rightarrow> Inr src | Other r \<Rightarrow> r)"

definition checkIntegritySource :: string where
  "checkIntegritySource =
     ''function checkIntegrity() {'' @ [CHR 0x0A] @
     ''  // This comment is part of the protected source.'' @ [CHR 0x0A] @
     ''  // Changing this function in DevTools should trigger the self-defend logic.'' @ [CHR 0x0A] @
     ''  return '' @ [CHR 0x27] @ ''ok'' @ [CHR 0x27] @ '';'' @ [CHR 0x0A] @
     ''}''"

definition checkIntegrity :: jsobj where
  "checkIntegrity = Function (utf16 checkIntegritySource)"

text \<open>
  \<open>window.__selfDefendInfo\<close>: \<open>None\<close> when the property is deleted, \<open>undefined\<close> or
  \<open>null\<close>; its \<open>targetFn\<close> is \<open>None\<close> for any falsy value. Calling the canary returns
  \<open>'ok'\<close> and writes nothing.
\<close>

record info =
  targetFn :: "jsobj option"
  originalHash :: "32 word"

type_synonym handle = "info option"

definition callCheckIntegrity :: "handle \<Rightarrow> string \<times> handle" where
  "callCheckIntegrity h = (''ok'', h)"

definition triggerFail :: "'h jsval \<Rightarrow> reason \<Rightarrow> latch \<times> 'h sys \<Rightarrow> latch \<times> 'h sys" where
  "triggerFail onFail reason st =
     (case st of (l, s) \<Rightarrow>
        if already l then (l, s)
        else
          let l1 = l\<lparr>already := True\<rparr>;
              (l2, s2) = (case intervalId l1 of
                            None \<Rightarrow> (l1, s)
                          | Some i \<Rightarrow> (l1\<lparr>intervalId := None\<rparr>, clearInterval i s))
          in (l2, case onFail of
                    Fn f \<Rightarrow> s2\<lparr>host := f reason (host s2)\<rparr>
                  | _ \<Rightarrow> s2))"

definition currentFnOf :: "handle \<Rightarrow> jsobj" where
  "currentFnOf h =
     (case h of
        None \<Rightarrow> checkIntegrity
      | Some i \<Rightarrow> (case targetFn i of None \<Rightarrow> checkIntegrity | Some f \<Rightarrow> f))"

definition selfDefendRunCheckTry ::
    "'h jsval \<Rightarrow> 32 word \<Rightarrow> handle \<Rightarrow> latch \<times> 'h sys \<Rightarrow> (latch \<times> 'h sys) js" where
  "selfDefendRunCheckTry onFail origHash h st =
     (let currentFn = currentFnOf h
      in bindJ (toStringJ currentFn) (\<lambda>currentSource.
           let currentHash = simpleHash currentSource
           in if currentHash \<noteq> origHash
              then Inr (triggerFail onFail ''function-source-changed'' st)
              else Inr st))"

definition selfDefendRunCheck ::
    "'h jsval \<Rightarrow> 32 word \<Rightarrow> handle \<Rightarrow> latch \<times> 'h sys \<Rightarrow> latch \<times> 'h sys" where
  "selfDefendRunCheck onFail origHash h st =
     (case selfDefendRunCheckTry onFail origHash h st of Inl err \<Rightarrow> st | Inr st' \<Rightarrow> st')"

definition selfDefendTick ::
    "'h jsval \<Rightarrow> 32 word \<Rightarrow> handle \<Rightarrow> latch \<times> 'h sys \<Rightarrow> latch \<times> 'h sys" where
  "selfDefendTick onFail origHash h st =
     (if \<not> already (fst st) then selfDefendRunCheck onFail origHash h st else st)"

text \<open>The result carries the handle written to \<open>window\<close> and the baseline.\<close>

definition startSelfDefend ::
    "'h config \<Rightarrow> 'h sys \<Rightarrow> (handle \<times> 32 word \<times> latch \<times> 'h sys) js" where
  "startSelfDefend config s =
     (let onFail = getProp config ''onFail''
      in bindJ (toStringJ checkIntegrity) (\<lambda>originalSource.
           let origHash = simpleHash originalSource;
               h = Some \<lparr>targetFn = Some checkIntegrity, originalHash = origHash\<rparr>;
               (l1, s1) = selfDefendRunCheck onFail origHash h (newLatch, s);
               (i, s2) = setInterval SELFDEFEND_CHECK_INTERVAL_MS s1
           in Inr (h, origHash, l1\<lparr>intervalId := Some i\<rparr>, s2)))"

section \<open>app.js\<close>

text \<open>
  The part of the page \<open>lockApp\<close> touches: the text of \<open>#security-message\<close> and the
  inline style of \<open>#task-form\<close> (\<open>None\<close> when the element is missing), the \<open>disabled\<close>
  flag of every button, and the messages of the \<open>console.warn\<close> line of \<open>lockApp\<close>.
  The form is the element the DOM guard queries as \<open>#task-form\<close>: a run in which the
  document has no such element has \<open>taskForm = None\<close>.
\<close>

record formStyle =
  opacity :: string
  pointerEvents :: string

record ui =
  securityMessage :: "string option"
  taskForm :: "formStyle option"
  buttons :: "bool list"
  lockLog :: "string list"

definition setSecurityMessage :: "string \<Rightarrow> ui \<Rightarrow> ui" where
  "setSecurityMessage txt u =
     (case securityMessage u of None \<Rightarrow> u | Some old \<Rightarrow> u\<lparr>securityMessage := Some txt\<rparr>)"

definition lockApp :: "string \<Rightarrow> ui \<Rightarrow> ui" where
  "lockApp message u =
     (let u1 = setSecurityMessage message u;
          u2 = (case taskForm u1 of
                  None \<Rightarrow> u1
                | Some f \<Rightarrow> u1\<lparr>taskForm := Some (f\<lparr>opacity := ''0.5'', pointerEvents := ''none''\<rparr>)\<rparr>);
          u3 = u2\<lparr>buttons := map (\<lambda>btn. True) (buttons u2)\<rparr>
      in u3\<lparr>lockLog := lockLog u3 @ [message]\<rparr>)"

text \<open>The two callbacks \<open>init\<close> registers; both ignore the reason code.\<close>

definition onTamper :: "ui jsval" where
  "onTamper = Fn (\<lambda>r. lockApp ''DOM tampering detected. App locked.'')"

definition onFail :: "ui jsval" where
  "onFail = Fn (\<lambda>r. lockApp ''Integrity check failed. App locked.'')"

text \<open>
  The state of the page after \<open>init\<close>: a detector that was never started is \<open>None\<close>.
  Loading and rendering the tasks is left out; the call of \<open>startAntiDebug\<close> is inside a
  comment in the source and so is not part of \<open>init\<close>.
\<close>

record app =
  antiDebugSt :: "latch option"
  domGuardSt :: "(snapshotItem list \<times> latch) option"
  selfDefendSt :: "(32 word \<times> latch) option"
  selfDefendInfo :: handle
  world :: "ui sys"

definition init :: "document \<Rightarrow> ui sys \<Rightarrow> app js" where
  "init doc s =
     bindJ (startDomGuard [''onTamper'' \<mapsto> onTamper] doc s) (\<lambda>(snap, l1, s1).
     bindJ (startSelfDefend [''onFail'' \<mapsto> onFail] s1) (\<lambda>(h, origHash, l2, s2).
       Inr \<lparr>antiDebugSt = None, domGuardSt = Some (snap, l1),
            selfDefendSt = Some (origHash, l2), selfDefendInfo = h, world = s2\<rparr>))"

section \<open>Vocabulary of the statements and concrete inputs\<close>

text \<open>Invoking a trigger routine once for every reason of a list, in order.\<close>

definition triggerAll ::
    "('h jsval \<Rightarrow> reason \<Rightarrow> latch \<times> 'h sys \<Rightarrow> latch \<times> 'h sys)
     \<Rightarrow> 'h jsval \<Rightarrow> reason list \<Rightarrow> latch \<times> 'h sys \<Rightarrow> latch \<times> 'h sys" where
  "triggerAll trigger cb rs st = foldl (\<lambda>st' r. trigger cb r st') st rs"

text \<open>
  The drift criterion in the words of the specification: the ratio
  \<open>max(cur,orig)/max(1,min(cur,orig))\<close>, and an entry offends when its element is absent
  or the ratio exceeds 3.
\<close>

definition ratioSpec :: "nat \<Rightarrow> nat \<Rightarrow> real" where
  "ratioSpec cur orig = real (max cur orig) / real (max 1 (min cur orig))"

definition entryOffends :: "snapshotItem \<Rightarrow> element option \<Rightarrow> bool" where
  "entryOffends item el =
     (case el of None \<Rightarrow> True | Some x \<Rightarrow> ratioSpec (textLen x) (textLength item) > 3)"

text \<open>
  The last step of every start function: \<open>intervalId = window.setInterval(..., ms)\<close>,
  after the check at startup.
\<close>

definition storeTimer :: "nat \<Rightarrow> latch \<times> 'h sys \<Rightarrow> latch \<times> 'h sys" where
  "storeTimer ms st =
     (case st of (l, s) \<Rightarrow> let (i, s2) = setInterval ms s in (l\<lparr>intervalId := Some i\<rparr>, s2))"

text \<open>
  The life of a detector's latch: created untriggered with a \<open>null\<close> handle, the trigger
  routine invoked for the reasons \<open>before\<close> (during the check at startup), the timer
  stored, the trigger routine invoked for the reasons \<open>after\<close> (from polls of the timer).
\<close>

definition lifecycle ::
    "('h jsval \<Rightarrow> reason \<Rightarrow> latch \<times> 'h sys \<Rightarrow> latch \<times> 'h sys)
     \<Rightarrow> 'h jsval \<Rightarrow> nat \<Rightarrow> reason list \<Rightarrow> reason list \<Rightarrow> 'h sys \<Rightarrow> latch \<times> 'h sys" where
  "lifecycle trigger cb ms before after s =
     triggerAll trigger cb after (storeTimer ms (triggerAll trigger cb before (newLatch, s)))"

text \<open>The number a double stands for, and the doubles nearest to 0.2, 100.2 and 105.5.\<close>

definition dval :: "double \<Rightarrow> real" where
  "dval d = of_int (significand d) * 2 powr of_int (exponent d)"

definition double_0_2 :: double where
  "double_0_2 = \<lparr>significand = 3602879701896397, exponent = - 54\<rparr>"

definition double_100_2 :: double where
  "double_100_2 = \<lparr>significand = 7050948166601933, exponent = - 46\<rparr>"

definition double_105_5 :: double where
  "double_105_5 = \<lparr>significand = 211, exponent = - 1\<rparr>"

text \<open>A callback that appends the reason code it is called with to a list.\<close>

definition recordReason :: "reason list jsval" where
  "recordReason = Fn (\<lambda>r calls. calls @ [r])"

definition emptySys :: "reason list sys" where
  "emptySys = \<lparr>timers = [], nextId = 1, cleared = [], host = []\<rparr>"

definition armedLatch :: latch where
  "armedLatch = \<lparr>already = False, intervalId = Some 1\<rparr>"

definition armedSys :: "reason list sys" where
  "armedSys = \<lparr>timers = [(1, 3000)], nextId = 2, cleared = [], host = []\<rparr>"

text \<open>A window whose frame is wider and higher than its viewport by the given amounts.\<close>

definition exampleWindow :: "int \<Rightarrow> int \<Rightarrow> window" where
  "exampleWindow widthDiff heightDiff =
     \<lparr>outerWidth = Inr (1000 + widthDiff), innerWidth = Inr 1000,
      outerHeight = Inr (700 + heightDiff), innerHeight = Inr 700,
      perfStart = Inr \<lparr>significand = 5, exponent = 0\<rparr>,
      perfEnd = Inr \<lparr>significand = 6, exponent = 0\<rparr>\<rparr>"

text \<open>Documents in which every selector matches an element of \<open>n\<close> characters, or nothing.\<close>

definition docLen :: "nat \<Rightarrow> document" where
  "docLen n = (\<lambda>sel. Inr (Some \<lparr>textContent = Some (replicate n (CHR ''x''))\<rparr>))"

definition docMissing :: document where
  "docMissing = (\<lambda>sel. Inr None)"

definition item100 :: snapshotItem where
  "item100 = \<lparr>selector = ''#task-list'', exists = True, textLength = 100\<rparr>"

definition itemAbsent :: snapshotItem where
  "itemAbsent = \<lparr>selector = ''#task-list'', exists = False, textLength = 0\<rparr>"

text \<open>
  The handle is gone when the property was deleted or its \<open>targetFn\<close> is falsy.
\<close>

definition handleGone :: "handle \<Rightarrow> bool" where
  "handleGone h = (case h of None \<Rightarrow> True | Some i \<Rightarrow> targetFn i = None)"

text \<open>
  Evaluating the heuristics of \<open>runChecks\<close> raises an exception: the size heuristic
  throws, or it returns false and the timing heuristic throws.
\<close>

definition antiDebugThrows :: "window \<Rightarrow> bool" where
  "antiDebugThrows w =
     (isl (isDevToolsOpenBySize w)
      \<or> (isDevToolsOpenBySize w = Inr False \<and> isl (isDevToolsOpenByTiming w)))"

definition throwingWindow :: window where
  "throwingWindow =
     \<lparr>outerWidth = Inr 1200, innerWidth = Inl (Thrown ''TypeError''),
      outerHeight = Inr 800, innerHeight = Inr 700,
      perfStart = Inr \<lparr>significand = 5, exponent = 0\<rparr>,
      perfEnd = Inr \<lparr>significand = 6, exponent = 0\<rparr>\<rparr>"

text \<open>
  Two replacements for the canary: one whose source differs from the canary's only in
  the returned string (\<open>'ko'\<close> for \<open>'ok'\<close>), and an unrelated one.
\<close>

definition koSource :: string where
  "koSource =
     ''function checkIntegrity() {'' @ [CHR 0x0A] @
     ''  // This comment is part of the protected source.'' @ [CHR 0x0A] @
     ''  // Changing this function in DevTools should trigger the self-defend logic.'' @ [CHR 0x0A] @
     ''  return '' @ [CHR 0x27] @ ''ko'' @ [CHR 0x27] @ '';'' @ [CHR 0x0A] @
     ''}''"

definition hackedSource :: string where
  "hackedSource = ''function hacked() { return 1; }''"

definition replacedHandle :: "string \<Rightarrow> handle" where
  "replacedHandle src = Some \<lparr>targetFn = Some (Function (utf16 src)), originalHash = 15345\<rparr>"

text \<open>The latch and the timers right after \<open>startSelfDefend\<close> on \<open>emptySys\<close>.\<close>

definition startedLatch :: latch where
  "startedLatch = \<lparr>already = False, intervalId = Some 1\<rparr>"

definition startedSys :: "reason list sys" where
  "startedSys = \<lparr>timers = [(1, 4000)], nextId = 2, cleared = [], host = []\<rparr>"

text \<open>
  The detectors \<open>init\<close> subscribes to, the callback it registers for each and the
  message that callback locks the page with; firing callbacks one after the other.
\<close>

datatype source = DomGuard | SelfDefend

fun callbackOf :: "source \<Rightarrow> ui jsval" where
  "callbackOf DomGuard = onTamper"
| "callbackOf SelfDefend = onFail"

fun messageOf :: "source \<Rightarrow> string" where
  "messageOf DomGuard = ''DOM tampering detected. App locked.''"
| "messageOf SelfDefend = ''Integrity check failed. App locked.''"

definition fire :: "source \<Rightarrow> reason \<Rightarrow> ui \<Rightarrow> ui" where
  "fire src r u = (case callbackOf src of Fn f \<Rightarrow> f r u | _ \<Rightarrow> u)"

definition fireAll :: "(source \<times> reason) list \<Rightarrow> ui \<Rightarrow> ui" where
  "fireAll evs u = foldl (\<lambda>u' ev. fire (fst ev) (snd ev) u') u evs"

text \<open>A page with an empty message area, an enabled form and three enabled buttons.\<close>

definition exampleUi :: ui where
  "exampleUi = \<lparr>securityMessage = Some [],
                taskForm = Some \<lparr>opacity = ''1'', pointerEvents = ''auto''\<rparr>,
                buttons = [False, False, False], lockLog = []\<rparr>"

definition exampleSys :: "ui sys" where
  "exampleSys = \<lparr>timers = [], nextId = 1, cleared = [], host = exampleUi\<rparr>"

definition snap100 :: "snapshotItem list" where
  "snap100 =
     map (\<lambda>sel. \<lparr>selector = sel, exists = True, textLength = 100\<rparr>) PROTECTED_SELECTORS"

text \<open>
  The document after the text of the task list was cut from 100 to 10 characters; the
  form and the other protected elements are as they were.
\<close>

definition shrunkListDoc :: document where
  "shrunkListDoc = (\<lambda>sel. if sel = ''#task-list'' then docLen 10 sel else docLen 100 sel)"

text \<open>
  A run of the page: \<open>init\<close>, then a poll of the DOM guard after the task list was
  cut, then a poll of the self-defend checker after the handle was replaced. The form
  is in the document throughout, as it is in \<open>exampleUi\<close>.
\<close>

definition exampleLocked :: "ui js" where
  "exampleLocked =
     bindJ (init (docLen 100) exampleSys) (\<lambda>a.
       case (domGuardSt a, selfDefendSt a) of
         (Some (snap, l1), Some (origHash, l2)) \<Rightarrow>
           let st1 = domGuardTick onTamper snap shrunkListDoc (l1, world a);
               st2 = selfDefendTick onFail origHash (replacedHandle hackedSource) (l2, snd st1)
           in Inr (host (snd st2))
       | _ \<Rightarrow> Inl (Thrown ''not started''))"

text \<open>A config object that sets properties named after the constants.\<close>

definition overrideConfig :: "reason list config" where
  "overrideConfig =
     [''onDetected'' \<mapsto> recordReason, ''DETECTION_INTERVAL_MS'' \<mapsto> Num 10,
      ''SIZE_THRESHOLD'' \<mapsto> Num 1000]"


section \<open>Basic facts\<close>

lemma bindJ_simps [simp]: "bindJ (Inl e) f = Inl e" "bindJ (Inr v) f = f v"
  by (simp_all add: bindJ_def)

lemma clearInterval_simps [simp]:
  "host (clearInterval i s) = host s"
  "cleared (clearInterval i s) = cleared s @ [i]"
  by (simp_all add: clearInterval_def)

subsection \<open>Doubles\<close>

lemma dgt_dval: "dgt d n \<longleftrightarrow> real_of_int n < dval d"
proof (cases "0 \<le> exponent d")
  case True
  then have "2 powr real_of_int (exponent d) = 2 ^ nat (exponent d)"
    by (simp add: powr_realpow [symmetric])
  then have "dval d = of_int (significand d * 2 ^ nat (exponent d))"
    by (simp add: dval_def)
  then show ?thesis
    using True by (simp add: dgt_def del: of_int_mult of_int_power)
next
  case False
  then have "2 powr real_of_int (exponent d) = 1 / 2 ^ nat (- exponent d)"
    by (simp add: powr_realpow [symmetric] powr_minus_divide [symmetric])
  then have "dval d = of_int (significand d) / of_int (2 ^ nat (- exponent d))"
    by (simp add: dval_def)
  moreover have "(0::real) < of_int (2 ^ nat (- exponent d))"
    by simp
  ultimately have "real_of_int n < dval d
      \<longleftrightarrow> real_of_int (n * 2 ^ nat (- exponent d)) < of_int (significand d)"
    by (simp add: pos_less_divide_eq del: of_int_power)
  also have "\<dots> \<longleftrightarrow> n * 2 ^ nat (- exponent d) < significand d"
    by (rule of_int_less_iff)
  finally show ?thesis
    using False by (simp add: dgt_def)
qed

text \<open>
  The exact difference of the doubles nearest to 100.2 and 0.2 is above 100 by less
  than half a unit in the last place, and rounds to 100.
\<close>

lemma bitLength_61:
  "bitLength 1801439850948198451 = 61"
  "bitLength 1896916163048452915 = 61"
  by (simp_all add: bitLength.simps)

lemma roundToNearestEven_8:
  "roundToNearestEven 1801439850948198451 8 = 7036874417766400"
  "roundToNearestEven 1896916163048452915 8 = 7409828761908019"
  by (simp_all add: roundToNearestEven_def Let_def)

lemma dsub_100_2:
  "dsub double_100_2 double_0_2 = \<lparr>significand = 7036874417766400, exponent = - 46\<rparr>"
proof -
  have "(7050948166601933 * 2 ^ nat (- 46 - - 54) - 3602879701896397 :: int)
      = 1801439850948198451"
    by simp
  then show ?thesis
    by (simp add: dsub_def roundDouble_def double_100_2_def double_0_2_def bitLength_61
        roundToNearestEven_8)
qed

lemma dsub_105_5:
  "dsub double_105_5 double_0_2 = \<lparr>significand = 7409828761908019, exponent = - 46\<rparr>"
proof -
  have "(211 * 2 ^ nat (- 1 - - 54) - 3602879701896397 :: int) = 1896916163048452915"
    by simp
  then show ?thesis
    by (simp add: dsub_def roundDouble_def double_105_5_def double_0_2_def bitLength_61
        roundToNearestEven_8)
qed

lemma dgt_examples:
  "dgt (dsub double_100_2 double_0_2) 100 = False"
  "dgt (dsub double_105_5 double_0_2) 100 = True"
  by (simp_all add: dsub_100_2 dsub_105_5 dgt_def)

subsection \<open>The three trigger routines are one routine\<close>

lemma triggerTamper_eq: "triggerTamper = triggerDetection"
  by (intro ext) (simp add: triggerTamper_def triggerDetection_def)

lemma triggerFail_eq: "triggerFail = triggerDetection"
  by (intro ext) (simp add: triggerFail_def triggerDetection_def)

lemma triggerDetection_first_None:
  "\<not> already l \<Longrightarrow> intervalId l = None \<Longrightarrow>
   triggerDetection (Fn f) r (l, s) = (l\<lparr>already := True\<rparr>, s\<lparr>host := f r (host s)\<rparr>)"
  by (simp add: triggerDetection_def)

lemma triggerDetection_first_Some:
  "\<not> already l \<Longrightarrow> intervalId l = Some i \<Longrightarrow>
   triggerDetection (Fn f) r (l, s) =
     (l\<lparr>already := True, intervalId := None\<rparr>,
      (clearInterval i s)\<lparr>host := f r (host (clearInterval i s))\<rparr>)"
  by (simp add: triggerDetection_def)

lemma triggerDetection_flag: "already (fst (triggerDetection cb r st))"
  by (cases st)
     (auto simp: triggerDetection_def Let_def split: option.splits jsval.splits prod.splits)

lemma triggerDetection_keeps: "already (fst st) \<Longrightarrow> triggerDetection cb r st = st"
  by (cases st) (simp add: triggerDetection_def)

lemma triggerAll_keeps: "already (fst st) \<Longrightarrow> triggerAll triggerDetection cb rs st = st"
  by (induction rs arbitrary: st) (simp_all add: triggerAll_def triggerDetection_keeps)

lemma triggerAll_Cons:
  "triggerAll triggerDetection cb (r # rs) st = triggerDetection cb r st"
  using triggerAll_keeps [OF triggerDetection_flag, of cb rs cb r st]
  by (simp add: triggerAll_def)

lemma triggerDetection_effect:
  assumes "\<not> already l"
  shows "already (fst (triggerDetection (Fn f) r (l, s)))
       \<and> intervalId (fst (triggerDetection (Fn f) r (l, s))) = None
       \<and> host (snd (triggerDetection (Fn f) r (l, s))) = f r (host s)
       \<and> cleared (snd (triggerDetection (Fn f) r (l, s))) =
           cleared s @ (case intervalId l of None \<Rightarrow> [] | Some i \<Rightarrow> [i])"
  using assms
  by (cases "intervalId l")
     (simp_all add: triggerDetection_first_None triggerDetection_first_Some)

lemma triggerDetection_no_callback:
  "(case cb of Fn g \<Rightarrow> True | _ \<Rightarrow> host (snd (triggerDetection cb r st)) = host (snd st))"
  by (cases st; cases cb)
     (auto simp: triggerDetection_def Let_def split: option.splits)

subsection \<open>The loop of \<open>isTampered\<close>\<close>

lemma ratio_gt_iff: "ratio cur orig > 3 \<longleftrightarrow> ratioSpec cur orig > 3"
  by (auto simp: ratio_def ratioSpec_def Let_def max_def min_def field_simps)

lemma isTampered_step:
  assumes "doc (selector item) = Inr el"
  shows "isTampered (item # rest) doc =
           (if exists item \<and> entryOffends item el then Inr True else isTampered rest doc)"
  using assms
  by (cases el) (simp_all add: entryOffends_def ratio_gt_iff TEXT_CHANGE_FACTOR_def)

lemma isTampered_append:
  "isTampered pre doc = Inr False \<Longrightarrow> isTampered (pre @ post) doc = isTampered post doc"
proof (induction pre)
  case Nil
  then show ?case by simp
next
  case (Cons item pre)
  then show ?case
    by (auto split: sum.splits if_splits)
qed

lemma domGuardRunCheck_tampered:
  "isTampered snap doc = Inr True \<Longrightarrow>
   domGuardRunCheck cb snap doc st = triggerTamper cb ''snapshot-mismatch'' st"
  by (simp add: domGuardRunCheck_def domGuardRunCheckTry_def)

lemma domGuardRunCheck_clean:
  "isTampered snap doc = Inr False \<Longrightarrow> domGuardRunCheck cb snap doc st = st"
  by (simp add: domGuardRunCheck_def domGuardRunCheckTry_def)

lemma domGuardRunCheck_throw:
  "isTampered snap doc = Inl e \<Longrightarrow> domGuardRunCheck cb snap doc st = st"
  by (simp add: domGuardRunCheck_def domGuardRunCheckTry_def)

lemma triggerTamper_host:
  "\<not> already l \<Longrightarrow> host (snd (triggerTamper (Fn f) r (l, s))) = f r (host s)"
  by (cases "intervalId l") (simp_all add: triggerTamper_def clearInterval_def)

section \<open>The detectors' latches\<close>

lemma storeTimer_new:
  "storeTimer ms (l, s) =
     (l\<lparr>intervalId := Some (nextId s)\<rparr>,
      s\<lparr>timers := timers s @ [(nextId s, ms)], nextId := Suc (nextId s)\<rparr>)"
  by (simp add: storeTimer_def setInterval_def)

text \<open>Every start function ends by storing its timer.\<close>

lemma startAntiDebug_storeTimer:
  "startAntiDebug config w s =
     storeTimer DETECTION_INTERVAL_MS (runChecks (getProp config ''onDetected'') w (newLatch, s))"
  by (cases "runChecks (getProp config ''onDetected'') w (newLatch, s)")
     (simp add: startAntiDebug_def storeTimer_def)

lemma startDomGuard_storeTimer:
  "startDomGuard config doc s =
     bindJ (snapshotDom doc) (\<lambda>snap.
       Inr (snap, storeTimer CHECK_INTERVAL_MS
                    (domGuardRunCheck (getProp config ''onTamper'') snap doc (newLatch, s))))"
proof -
  have "(let (l1, s1) = st; (i, s2) = setInterval ms s1 in Inr (snap, l1\<lparr>intervalId := Some i\<rparr>, s2))
      = (Inr (snap, storeTimer ms st) :: (snapshotItem list \<times> latch \<times> 'a sys) js)"
    for st :: "latch \<times> 'a sys" and ms snap
    by (cases st) (simp add: storeTimer_def split: prod.splits)
  then show ?thesis
    by (simp add: startDomGuard_def)
qed

text \<open>
  The check at startup of \<open>startAntiDebug\<close> invokes the trigger routine once or not at
  all, so the latch it returns is at a point of the life described by \<open>lifecycle\<close>.
\<close>

lemma startAntiDebug_lifecycle:
  "startAntiDebug config w s \<in>
     {lifecycle triggerDetection (getProp config ''onDetected'') DETECTION_INTERVAL_MS [] [] s,
      lifecycle triggerDetection (getProp config ''onDetected'') DETECTION_INTERVAL_MS
        [''window-size-heuristic''] [] s,
      lifecycle triggerDetection (getProp config ''onDetected'') DETECTION_INTERVAL_MS
        [''timing-debugger-heuristic''] [] s}"
  by (cases "isDevToolsOpenBySize w"; cases "isDevToolsOpenByTiming w")
     (auto simp: startAntiDebug_storeTimer lifecycle_def triggerAll_def runChecks_def
       runChecksTry_def)

lemma lifecycle_startup:
  "lifecycle triggerDetection (Fn f) ms (r0 # rest) after s =
     (\<lparr>already = True, intervalId = Some (nextId s)\<rparr>,
      s\<lparr>host := f r0 (host s), timers := timers s @ [(nextId s, ms)],
        nextId := Suc (nextId s)\<rparr>)"
proof -
  have "triggerAll triggerDetection (Fn f) (r0 # rest) (newLatch, s)
      = (\<lparr>already = True, intervalId = None\<rparr>, s\<lparr>host := f r0 (host s)\<rparr>)"
    by (simp add: triggerAll_Cons triggerDetection_first_None newLatch_def)
  then show ?thesis
    by (simp add: lifecycle_def storeTimer_new triggerAll_keeps)
qed

lemma lifecycle_later:
  "lifecycle triggerDetection (Fn f) ms [] (r0 # rest) s =
     (\<lparr>already = True, intervalId = None\<rparr>,
      s\<lparr>timers := filter (\<lambda>t. fst t \<noteq> nextId s) (timers s), nextId := Suc (nextId s),
        cleared := cleared s @ [nextId s], host := f r0 (host s)\<rparr>)"
proof -
  have "triggerAll triggerDetection (Fn f) [] (newLatch, s) = (newLatch, s)"
    by (simp add: triggerAll_def)
  then show ?thesis
    by (simp add: lifecycle_def triggerAll_Cons storeTimer_new newLatch_def
        triggerDetection_first_Some clearInterval_def)
qed

text \<open>
  Claim C4, as the code has it. For each of \<open>triggerDetection\<close>, \<open>triggerTamper\<close> and
  \<open>triggerFail\<close>: when the routine is invoked two or more times in the life of a latch,
  the callback is called exactly once, with the first reason; the flag is true
  afterwards and no invocation turns a true flag false. When the first invocation comes
  after the timer was stored, \<open>clearInterval\<close> is called exactly once, for that timer,
  and the handle is \<open>null\<close> from then on. When the first invocation comes before, in the
  check at startup, nothing is cancelled by it or by any later invocation, and the
  handle stored after the check stays set. A callback that is not a function is not
  called. The same counts hold for consecutive invocations on any untriggered latch.
\<close>

theorem trigger_once:
  assumes "2 \<le> length (before @ after)"
      and "trigger \<in> {triggerDetection, triggerTamper, triggerFail}"
  shows "already (fst (lifecycle trigger (Fn f) ms before after s))
       \<and> host (snd (lifecycle trigger (Fn f) ms before after s))
           = f (hd (before @ after)) (host s)
       \<and> (before = [] \<longrightarrow>
            cleared (snd (lifecycle trigger (Fn f) ms before after s)) = cleared s @ [nextId s]
            \<and> intervalId (fst (lifecycle trigger (Fn f) ms before after s)) = None
            \<and> (nextId s, ms) \<notin> set (timers (snd (lifecycle trigger (Fn f) ms before after s))))
       \<and> (before \<noteq> [] \<longrightarrow>
            cleared (snd (lifecycle trigger (Fn f) ms before after s)) = cleared s
            \<and> intervalId (fst (lifecycle trigger (Fn f) ms before after s)) = Some (nextId s)
            \<and> timers (snd (lifecycle trigger (Fn f) ms before after s))
                = timers s @ [(nextId s, ms)])
       \<and> (already (fst st) \<longrightarrow> already (fst (trigger cb r st)))
       \<and> (case cb of Fn g \<Rightarrow> True | _ \<Rightarrow> host (snd (trigger cb r st)) = host (snd st))
       \<and> (\<not> already l \<and> rs \<noteq> [] \<longrightarrow>
            already (fst (triggerAll trigger (Fn f) rs (l, s)))
            \<and> host (snd (triggerAll trigger (Fn f) rs (l, s))) = f (hd rs) (host s)
            \<and> cleared (snd (triggerAll trigger (Fn f) rs (l, s))) =
                cleared s @ (case intervalId l of None \<Rightarrow> [] | Some i \<Rightarrow> [i]))"
proof -
  from assms(2) have t: "trigger = triggerDetection"
    by (auto simp: triggerTamper_eq triggerFail_eq)
  have life: "already (fst (lifecycle triggerDetection (Fn f) ms before after s))
       \<and> host (snd (lifecycle triggerDetection (Fn f) ms before after s))
           = f (hd (before @ after)) (host s)
       \<and> (before = [] \<longrightarrow>
            cleared (snd (lifecycle triggerDetection (Fn f) ms before after s))
              = cleared s @ [nextId s]
            \<and> intervalId (fst (lifecycle triggerDetection (Fn f) ms before after s)) = None
            \<and> (nextId s, ms)
                \<notin> set (timers (snd (lifecycle triggerDetection (Fn f) ms before after s))))
       \<and> (before \<noteq> [] \<longrightarrow>
            cleared (snd (lifecycle triggerDetection (Fn f) ms before after s)) = cleared s
            \<and> intervalId (fst (lifecycle triggerDetection (Fn f) ms before after s))
                = Some (nextId s)
            \<and> timers (snd (lifecycle triggerDetection (Fn f) ms before after s))
                = timers s @ [(nextId s, ms)])"
  proof (cases before)
    case Nil
    with assms(1) obtain r0 rest where "after = r0 # rest"
      by (cases after) auto
    with Nil show ?thesis
      by (simp add: lifecycle_later)
  next
    case (Cons r0 rest)
    then show ?thesis
      by (simp add: lifecycle_startup)
  qed
  have consecutive: "\<not> already l \<and> rs \<noteq> [] \<longrightarrow>
            already (fst (triggerAll triggerDetection (Fn f) rs (l, s)))
            \<and> host (snd (triggerAll triggerDetection (Fn f) rs (l, s))) = f (hd rs) (host s)
            \<and> cleared (snd (triggerAll triggerDetection (Fn f) rs (l, s))) =
                cleared s @ (case intervalId l of None \<Rightarrow> [] | Some i \<Rightarrow> [i])"
  proof (intro impI, elim conjE)
    assume na: "\<not> already l" and ne: "rs \<noteq> []"
    from ne obtain r0 rest where rs: "rs = r0 # rest"
      by (cases rs) auto
    show "already (fst (triggerAll triggerDetection (Fn f) rs (l, s)))
            \<and> host (snd (triggerAll triggerDetection (Fn f) rs (l, s))) = f (hd rs) (host s)
            \<and> cleared (snd (triggerAll triggerDetection (Fn f) rs (l, s))) =
                cleared s @ (case intervalId l of None \<Rightarrow> [] | Some i \<Rightarrow> [i])"
      unfolding rs triggerAll_Cons
      using triggerDetection_effect [OF na, of f r0 s] by simp
  qed
  have flag: "already (fst st) \<longrightarrow> already (fst (triggerDetection cb r st))"
    by (simp add: triggerDetection_flag)
  show ?thesis
    unfolding t
    by (intro conjI life [THEN conjunct1] life [THEN conjunct2, THEN conjunct1]
        life [THEN conjunct2, THEN conjunct2, THEN conjunct1]
        life [THEN conjunct2, THEN conjunct2, THEN conjunct2]
        flag triggerDetection_no_callback consecutive)
qed

theorem trigger_once_witness:
  "host (snd (lifecycle triggerDetection recordReason 3000
                [''window-size-heuristic''] [''again''] emptySys)) = [''window-size-heuristic'']
   \<and> cleared (snd (lifecycle triggerDetection recordReason 3000
                [''window-size-heuristic''] [''again''] emptySys)) = []
   \<and> intervalId (fst (lifecycle triggerDetection recordReason 3000
                [''window-size-heuristic''] [''again''] emptySys)) = Some 1
   \<and> host (snd (lifecycle triggerTamper recordReason 3000
                [] [''snapshot-mismatch'', ''again''] emptySys)) = [''snapshot-mismatch'']
   \<and> cleared (snd (lifecycle triggerTamper recordReason 3000
                [] [''snapshot-mismatch'', ''again''] emptySys)) = [1]
   \<and> intervalId (fst (lifecycle triggerTamper recordReason 3000
                [] [''snapshot-mismatch'', ''again''] emptySys)) = None"
proof -
  let ?f = "\<lambda>r calls. calls @ [r :: string]"
  have e: "host emptySys = []" "cleared emptySys = []" "nextId emptySys = 1"
    by (simp_all add: emptySys_def)
  have len: "2 \<le> length ([''window-size-heuristic''] @ [''again''])"
    "2 \<le> length ([] @ [''snapshot-mismatch'', ''again''])"
    by simp_all
  have mem: "triggerDetection \<in> {triggerDetection, triggerTamper, triggerFail}"
    "triggerTamper \<in> {triggerDetection, triggerTamper, triggerFail}"
    by simp_all
  note a = trigger_once [OF len(1) mem(1), of ?f 3000 emptySys "(newLatch, emptySys)" Undefined
      "''again''" newLatch "[]"]
  note b = trigger_once [OF len(2) mem(2), of ?f 3000 emptySys "(newLatch, emptySys)" Undefined
      "''again''" newLatch "[]"]
  from a have "host (snd (lifecycle triggerDetection (Fn ?f) 3000
                [''window-size-heuristic''] [''again''] emptySys))
        = ?f (hd ([''window-size-heuristic''] @ [''again''])) (host emptySys)
      \<and> cleared (snd (lifecycle triggerDetection (Fn ?f) 3000
                [''window-size-heuristic''] [''again''] emptySys)) = cleared emptySys
      \<and> intervalId (fst (lifecycle triggerDetection (Fn ?f) 3000
                [''window-size-heuristic''] [''again''] emptySys)) = Some (nextId emptySys)"
    by blast
  moreover from b have "host (snd (lifecycle triggerTamper (Fn ?f) 3000
                [] [''snapshot-mismatch'', ''again''] emptySys))
        = ?f (hd ([] @ [''snapshot-mismatch'', ''again''])) (host emptySys)
      \<and> cleared (snd (lifecycle triggerTamper (Fn ?f) 3000
                [] [''snapshot-mismatch'', ''again''] emptySys)) = cleared emptySys @ [nextId emptySys]
      \<and> intervalId (fst (lifecycle triggerTamper (Fn ?f) 3000
                [] [''snapshot-mismatch'', ''again''] emptySys)) = None"
    by blast
  ultimately show ?thesis
    by (simp add: e recordReason_def)
qed

text \<open>
  The claim as stated fails when the first trigger runs during the check at startup:
  the handle is still \<open>null\<close> then, nothing is cancelled, and \<open>startAntiDebug\<close> stores
  the new timer in the handle afterwards. Here the window shows a width difference of
  200 at startup and the trigger routine is invoked twice more.
\<close>

theorem trigger_startup_counterexample:
  "triggerAll triggerDetection recordReason [''window-size-heuristic'', ''window-size-heuristic'']
     (startAntiDebug [''onDetected'' \<mapsto> recordReason] (exampleWindow 200 100) emptySys)
   = (\<lparr>already = True, intervalId = Some 1\<rparr>,
      \<lparr>timers = [(1, 3000)], nextId = 2, cleared = [], host = [''window-size-heuristic'']\<rparr>)"
  by (simp add: triggerAll_def startAntiDebug_def getProp_def runChecks_def runChecksTry_def
      isDevToolsOpenBySize_def SIZE_THRESHOLD_def exampleWindow_def emptySys_def newLatch_def
      triggerDetection_def recordReason_def setInterval_def DETECTION_INTERVAL_MS_def)

section \<open>The viewport heuristic\<close>

text \<open>
  Claim C8. When the four window dimensions can be read, \<open>isDevToolsOpenBySize\<close>
  returns true if and only if \<open>outerWidth - innerWidth\<close> exceeds 160 or
  \<open>outerHeight - innerHeight\<close> exceeds 160; a width difference of 200 gives true, and a
  width difference of 50 with a height difference of at most 160 gives false.
\<close>

theorem isDevToolsOpenBySize_threshold:
  assumes "outerWidth w = Inr ow" and "innerWidth w = Inr iw"
      and "outerHeight w = Inr oh" and "innerHeight w = Inr ih"
  shows "isDevToolsOpenBySize w = Inr (ow - iw > 160 \<or> oh - ih > 160)
       \<and> (ow - iw = 200 \<longrightarrow> isDevToolsOpenBySize w = Inr True)
       \<and> (ow - iw = 50 \<and> oh - ih \<le> 160 \<longrightarrow> isDevToolsOpenBySize w = Inr False)"
  using assms by (simp add: isDevToolsOpenBySize_def SIZE_THRESHOLD_def)

theorem isDevToolsOpenBySize_threshold_witness:
  "isDevToolsOpenBySize (exampleWindow 200 100) = Inr True
   \<and> isDevToolsOpenBySize (exampleWindow 50 100) = Inr False
   \<and> isDevToolsOpenBySize (exampleWindow 50 161) = Inr True"
  using isDevToolsOpenBySize_threshold [of "exampleWindow 200 100" 1200 1000 800 700]
        isDevToolsOpenBySize_threshold [of "exampleWindow 50 100" 1050 1000 800 700]
        isDevToolsOpenBySize_threshold [of "exampleWindow 50 161" 1050 1000 861 700]
  by (simp add: exampleWindow_def)

section \<open>The DOM guard's comparison\<close>

text \<open>
  Claim C5. For a snapshot entry whose element existed at snapshot time, reached by the
  loop (no earlier entry ended it) and whose selector can be queried, \<open>isTampered\<close>
  reports tampering at that entry if and only if the element is now absent or the ratio
  \<open>max(cur,orig)/max(1,min(cur,orig))\<close> exceeds 3; otherwise the loop goes on with the
  entries after it. With original length 100, current length 50 is no tamper, and
  current length 10 is tamper, for which the poll calls the callback with the reason
  \<open>snapshot-mismatch\<close>.
\<close>

theorem isTampered_entry:
  assumes "exists item" and "doc (selector item) = Inr el" and "isTampered pre doc = Inr False"
  shows "isTampered (pre @ item # post) doc =
           (if entryOffends item el then Inr True else isTampered post doc)
       \<and> (el = None \<longrightarrow> isTampered (pre @ item # post) doc = Inr True)
       \<and> (textLength item = 100 \<and> (\<exists>x. el = Some x \<and> textLen x = 50)
            \<longrightarrow> isTampered (pre @ [item]) doc = Inr False)
       \<and> (textLength item = 100 \<and> (\<exists>x. el = Some x \<and> textLen x = 10) \<and> \<not> already l
            \<longrightarrow> isTampered (pre @ item # post) doc = Inr True
              \<and> domGuardTick (Fn f) (pre @ item # post) doc (l, s)
                  = triggerTamper (Fn f) ''snapshot-mismatch'' (l, s)
              \<and> host (snd (domGuardTick (Fn f) (pre @ item # post) doc (l, s)))
                  = f ''snapshot-mismatch'' (host s))"
proof -
  have step: "isTampered (pre @ item # post) doc =
      (if entryOffends item el then Inr True else isTampered post doc)" for post
    using isTampered_append [OF assms(3), of "item # post"]
      isTampered_step [of doc item el post] assms(1,2)
    by simp
  have c1: "el = None \<longrightarrow> isTampered (pre @ item # post) doc = Inr True"
    using step [of post] by (simp add: entryOffends_def)
  have c2: "textLength item = 100 \<and> (\<exists>x. el = Some x \<and> textLen x = 50)
            \<longrightarrow> isTampered (pre @ [item]) doc = Inr False"
    using step [of "[]"] by (auto simp: entryOffends_def ratioSpec_def)
  have t10: "isTampered (pre @ item # post) doc = Inr True"
    if "textLength item = 100" "el = Some x" "textLen x = 10" for x
    using step [of post] that by (simp add: entryOffends_def ratioSpec_def)
  have c3: "textLength item = 100 \<and> (\<exists>x. el = Some x \<and> textLen x = 10) \<and> \<not> already l
            \<longrightarrow> isTampered (pre @ item # post) doc = Inr True
              \<and> domGuardTick (Fn f) (pre @ item # post) doc (l, s)
                  = triggerTamper (Fn f) ''snapshot-mismatch'' (l, s)
              \<and> host (snd (domGuardTick (Fn f) (pre @ item # post) doc (l, s)))
                  = f ''snapshot-mismatch'' (host s)"
    using t10 domGuardRunCheck_tampered [of "pre @ item # post" doc "Fn f" "(l, s)"]
      triggerTamper_host [of l f "''snapshot-mismatch''" s]
    by (auto simp: domGuardTick_def)
  from step [of post] c1 c2 c3 show ?thesis by blast
qed

theorem isTampered_entry_witness:
  "isTampered [item100] (docLen 50) = Inr False
   \<and> isTampered [item100] (docLen 10) = Inr True
   \<and> isTampered [item100] docMissing = Inr True
   \<and> host (snd (domGuardTick recordReason [item100] (docLen 10) (armedLatch, armedSys)))
       = [''snapshot-mismatch'']"
proof -
  let ?el = "\<lambda>n. Some \<lparr>textContent = Some (replicate n (CHR ''x''))\<rparr>"
  let ?f = "\<lambda>r calls. calls @ [r :: string]"
  have ex: "exists item100" and len: "textLength item100 = 100"
    by (simp_all add: item100_def)
  have q: "docLen n (selector item100) = Inr (?el n)" for n
    by (simp add: docLen_def)
  have tl: "textLen \<lparr>textContent = Some (replicate n (CHR ''x''))\<rparr> = n" for n
    by (simp add: textLen_def)
  have qm: "docMissing (selector item100) = Inr None"
    by (simp add: docMissing_def)
  have pre: "isTampered [] d = Inr False" for d
    by simp
  have na: "\<not> already armedLatch" and h0: "host armedSys = []"
    by (simp_all add: armedLatch_def armedSys_def)
  have "isTampered ([] @ [item100]) (docLen 50) = Inr False"
    using isTampered_entry [of item100 "docLen 50" "?el 50" "[]" "[]" armedLatch ?f armedSys,
        OF ex q pre] len tl [of 50]
    by blast
  moreover have "isTampered ([] @ item100 # []) (docLen 10) = Inr True
      \<and> host (snd (domGuardTick (Fn ?f) ([] @ item100 # []) (docLen 10) (armedLatch, armedSys)))
          = ?f ''snapshot-mismatch'' (host armedSys)"
    using isTampered_entry [of item100 "docLen 10" "?el 10" "[]" "[]" armedLatch ?f armedSys,
        OF ex q pre] len tl [of 10] na
    by blast
  moreover have "isTampered ([] @ item100 # []) docMissing = Inr True"
    using isTampered_entry [of item100 docMissing None "[]" "[]" armedLatch ?f armedSys,
        OF ex qm pre]
    by blast
  ultimately show ?thesis
    by (simp only: append_Nil h0 recordReason_def)
qed

text \<open>
  Claim C9. A snapshot entry recorded with \<open>exists = false\<close> never makes \<open>isTampered\<close>
  report tampering: whatever the selector matches now and whatever the text of that
  element, the loop passes the entry and goes on with the entries after it.
\<close>

theorem isTampered_not_exists:
  assumes "\<not> exists item"
  shows "isTampered [item] doc \<noteq> Inr True
       \<and> (isTampered pre doc = Inr False \<and> doc (selector item) = Inr el
            \<longrightarrow> isTampered (pre @ item # post) doc = isTampered post doc)"
proof -
  have a: "isTampered [item] doc \<noteq> Inr True"
    using assms by (auto split: sum.splits)
  have b: "isTampered (pre @ item # post) doc = isTampered post doc"
    if "isTampered pre doc = Inr False" "doc (selector item) = Inr el"
    using isTampered_append [OF that(1), of "item # post"]
      isTampered_step [of doc item el post] that(2) assms
    by simp
  from a b show ?thesis by blast
qed

theorem isTampered_not_exists_witness:
  "isTampered [itemAbsent] (docLen 5000) = Inr False
   \<and> isTampered [itemAbsent, item100] (docLen 10) = isTampered [item100] (docLen 10)"
proof -
  let ?el = "\<lambda>n. Some \<lparr>textContent = Some (replicate n (CHR ''x''))\<rparr>"
  have nex: "\<not> exists itemAbsent"
    by (simp add: itemAbsent_def)
  have q: "docLen n (selector itemAbsent) = Inr (?el n)" for n
    by (simp add: docLen_def)
  have pre: "isTampered [] d = Inr False" for d
    by simp
  have "isTampered ([] @ itemAbsent # []) (docLen 5000) = isTampered [] (docLen 5000)"
    using isTampered_not_exists [of itemAbsent "docLen 5000" "[]" "?el 5000" "[]", OF nex]
      q [of 5000] pre [of "docLen 5000"]
    by blast
  moreover
  have "isTampered ([] @ itemAbsent # [item100]) (docLen 10) = isTampered [item100] (docLen 10)"
    using isTampered_not_exists [of itemAbsent "docLen 10" "[]" "?el 10" "[item100]", OF nex]
      q [of 10] pre [of "docLen 10"]
    by blast
  ultimately show ?thesis
    by (simp only: append_Nil pre)
qed

section \<open>The self-defend checker\<close>

lemma simpleHash_from:
  "foldl (\<lambda>hash c. hash + ucast c) a (str :: jsstring)
     = (a :: 32 word) + of_nat (sum_list (map unat str))"
  by (induction str arbitrary: a) (simp_all add: add.assoc)

lemma simpleHash_sum: "unat (simpleHash str) = sum_list (map unat str) mod 2 ^ 32"
  by (simp add: simpleHash_def simpleHash_from unat_of_nat)

lemma baseline: "simpleHash (utf16 checkIntegritySource) = 15345"
  by (simp add: simpleHash_def utf16_def checkIntegritySource_def)

lemma koHash: "simpleHash (utf16 koSource) = 15345"
  by (simp add: simpleHash_def utf16_def koSource_def)

lemma ko_differs: "utf16 koSource \<noteq> utf16 checkIntegritySource"
  by (simp add: utf16_def koSource_def checkIntegritySource_def)

lemma hackedHash: "simpleHash (utf16 hackedSource) \<noteq> 15345"
  by (simp add: simpleHash_def utf16_def hackedSource_def)

lemma selfDefendRunCheck_eq:
  "toStringJ (currentFnOf h) = Inr src \<Longrightarrow>
   selfDefendRunCheck cb origHash h st =
     (if simpleHash src \<noteq> origHash then triggerFail cb ''function-source-changed'' st else st)"
  by (simp add: selfDefendRunCheck_def selfDefendRunCheckTry_def)

lemma selfDefendRunCheck_throw:
  "toStringJ (currentFnOf h) = Inl e \<Longrightarrow> selfDefendRunCheck cb origHash h st = st"
  by (simp add: selfDefendRunCheck_def selfDefendRunCheckTry_def)

lemma toStringJ_checkIntegrity: "toStringJ checkIntegrity = Inr (utf16 checkIntegritySource)"
  by (simp add: toStringJ_def checkIntegrity_def)

text \<open>The check at startup reads the handle just written and never fails.\<close>

lemma startSelfDefend_result:
  "startSelfDefend config s =
     Inr (Some \<lparr>targetFn = Some checkIntegrity,
                originalHash = simpleHash (utf16 checkIntegritySource)\<rparr>,
          simpleHash (utf16 checkIntegritySource),
          \<lparr>already = False, intervalId = Some (nextId s)\<rparr>,
          s\<lparr>timers := timers s @ [(nextId s, 4000)], nextId := Suc (nextId s)\<rparr>)"
proof -
  have "selfDefendRunCheck cb (simpleHash (utf16 checkIntegritySource))
          (Some \<lparr>targetFn = Some checkIntegrity, originalHash = x\<rparr>) st = st"
    for cb :: "'a jsval" and x st
    by (rule trans [OF selfDefendRunCheck_eq [where src = "utf16 checkIntegritySource"]])
       (simp_all add: currentFnOf_def toStringJ_checkIntegrity)
  then show ?thesis
    by (simp add: startSelfDefend_def toStringJ_checkIntegrity Let_def setInterval_def
        SELFDEFEND_CHECK_INTERVAL_MS_def newLatch_def)
qed

lemma currentFnOf_gone: "handleGone h \<Longrightarrow> currentFnOf h = checkIntegrity"
  by (auto simp: handleGone_def currentFnOf_def split: option.splits)

lemma selfDefendTick_gone:
  "handleGone h \<Longrightarrow> selfDefendTick cb (simpleHash (utf16 checkIntegritySource)) h st = st"
  using selfDefendRunCheck_eq [of h "utf16 checkIntegritySource" cb
      "simpleHash (utf16 checkIntegritySource)" st]
  by (simp add: selfDefendTick_def currentFnOf_gone toStringJ_checkIntegrity)

lemma selfDefendTicks_gone:
  "list_all handleGone hs \<Longrightarrow>
   foldl (\<lambda>st h. selfDefendTick cb (simpleHash (utf16 checkIntegritySource)) h st) st hs = st"
  by (induction hs) (simp_all add: selfDefendTick_gone)

lemma triggerFail_host:
  "\<not> already l \<Longrightarrow> host (snd (triggerFail (Fn f) r (l, s))) = f r (host s)
     \<and> already (fst (triggerFail (Fn f) r (l, s)))"
  by (cases "intervalId l") (simp_all add: triggerFail_def clearInterval_def)

text \<open>
  Claim C6, as the code has it. After \<open>startSelfDefend\<close>, a poll resolves the value that
  stands behind the handle at that moment, not the function captured at startup; the
  checksum is the sum of the UTF-16 code units of the serialized source modulo \<open>2 ^ 32\<close>;
  a poll of a checker that has not failed yet calls \<open>onFail\<close> with the reason
  \<open>function-source-changed\<close> exactly when the checksum of the current source differs from
  the baseline. So a replacement whose
  source has a different checksum is detected at the next poll, and calling the canary,
  which writes nothing, is not.
\<close>

theorem selfDefend_poll:
  assumes "startSelfDefend config s = Inr (h0, origHash, l, s1)"
      and "getProp config ''onFail'' = Fn f"
      and "toStringJ (currentFnOf h) = Inr src"
      and "\<not> already l'"
  shows "currentFnOf (Some \<lparr>targetFn = Some g, originalHash = x\<rparr>) = g
       \<and> unat (simpleHash src) = sum_list (map unat src) mod 2 ^ 32
       \<and> origHash = simpleHash (utf16 checkIntegritySource)
       \<and> \<not> already l
       \<and> selfDefendTick (getProp config ''onFail'') origHash h (l', s') =
           (if simpleHash src \<noteq> origHash
            then triggerFail (Fn f) ''function-source-changed'' (l', s') else (l', s'))
       \<and> (simpleHash src \<noteq> origHash \<longrightarrow>
            host (snd (selfDefendTick (getProp config ''onFail'') origHash h (l', s')))
              = f ''function-source-changed'' (host s')
            \<and> already (fst (selfDefendTick (getProp config ''onFail'') origHash h (l', s'))))
       \<and> selfDefendTick (getProp config ''onFail'') origHash (snd (callCheckIntegrity h0)) (l', s')
           = (l', s')"
proof -
  from assms(1) have h0: "h0 = Some \<lparr>targetFn = Some checkIntegrity, originalHash = origHash\<rparr>"
    and oh: "origHash = simpleHash (utf16 checkIntegritySource)"
    and l: "\<not> already l"
    by (auto simp: startSelfDefend_result)
  note na = assms(4)
  have tick: "selfDefendTick (Fn f) origHash h (l', s') =
           (if simpleHash src \<noteq> origHash
            then triggerFail (Fn f) ''function-source-changed'' (l', s') else (l', s'))"
    using selfDefendRunCheck_eq [OF assms(3), of "Fn f" origHash "(l', s')"] na
    by (simp add: selfDefendTick_def)
  have fire: "simpleHash src \<noteq> origHash \<longrightarrow>
            host (snd (selfDefendTick (Fn f) origHash h (l', s')))
              = f ''function-source-changed'' (host s')
            \<and> already (fst (selfDefendTick (Fn f) origHash h (l', s')))"
    using tick triggerFail_host [OF na, of f "''function-source-changed''" s']
    by simp
  have call: "selfDefendTick (Fn f) origHash (snd (callCheckIntegrity h0)) (l', s') = (l', s')"
    using selfDefendRunCheck_eq [of h0 "utf16 checkIntegritySource" "Fn f" origHash "(l', s')"]
    by (simp add: callCheckIntegrity_def selfDefendTick_def h0 oh currentFnOf_def
        toStringJ_checkIntegrity)
  have res: "currentFnOf (Some \<lparr>targetFn = Some g, originalHash = x\<rparr>) = g"
    by (simp add: currentFnOf_def)
  from res simpleHash_sum [of src] oh l tick fire call show ?thesis
    unfolding assms(2) by blast
qed

theorem selfDefend_poll_witness:
  "host (snd (selfDefendTick recordReason 15345 (replacedHandle hackedSource)
                (startedLatch, startedSys))) = [''function-source-changed'']
   \<and> selfDefendTick recordReason 15345
        (Some \<lparr>targetFn = Some checkIntegrity, originalHash = 15345\<rparr>)
        (startedLatch, startedSys) = (startedLatch, startedSys)"
proof -
  let ?f = "\<lambda>r calls. calls @ [r :: string]"
  let ?h0 = "Some \<lparr>targetFn = Some checkIntegrity, originalHash = 15345\<rparr>"
  let ?config = "[''onFail'' \<mapsto> recordReason]"
  have start: "startSelfDefend ?config emptySys = Inr (?h0, 15345, startedLatch, startedSys)"
    by (simp add: startSelfDefend_result baseline emptySys_def startedLatch_def startedSys_def)
  have cb: "getProp ?config ''onFail'' = Fn ?f"
    by (simp add: getProp_def recordReason_def)
  have src: "toStringJ (currentFnOf (replacedHandle hackedSource)) = Inr (utf16 hackedSource)"
    by (simp add: replacedHandle_def currentFnOf_def toStringJ_def)
  have na: "\<not> already startedLatch"
    by (simp add: startedLatch_def)
  have h: "host startedSys = []"
    by (simp add: startedSys_def)
  note poll = selfDefend_poll [OF start cb src na, of checkIntegrity 0 startedSys]
  from poll hackedHash
  have "host (snd (selfDefendTick (getProp ?config ''onFail'') 15345 (replacedHandle hackedSource)
                (startedLatch, startedSys))) = ?f ''function-source-changed'' (host startedSys)"
    by blast
  moreover from poll
  have "selfDefendTick (getProp ?config ''onFail'') 15345 (snd (callCheckIntegrity ?h0))
          (startedLatch, startedSys) = (startedLatch, startedSys)"
    by blast
  ultimately show ?thesis
    by (simp add: h getProp_def recordReason_def callCheckIntegrity_def)
qed

text \<open>
  The claim as stated fails for a replacement with another source text of the same
  checksum: the canary with \<open>'ok'\<close> turned into \<open>'ko'\<close> is a different routine with a
  different source, and the poll after the replacement changes nothing.
\<close>

theorem selfDefend_same_checksum_counterexample:
  "utf16 koSource \<noteq> utf16 checkIntegritySource
   \<and> startSelfDefend [''onFail'' \<mapsto> recordReason] emptySys
       = Inr (Some \<lparr>targetFn = Some checkIntegrity, originalHash = 15345\<rparr>, 15345,
              startedLatch, startedSys)
   \<and> selfDefendTick recordReason 15345 (replacedHandle koSource) (startedLatch, startedSys)
       = (startedLatch, startedSys)"
proof -
  have "selfDefendTick recordReason 15345 (replacedHandle koSource) (startedLatch, startedSys)
       = (startedLatch, startedSys)"
    using selfDefendRunCheck_eq [of "replacedHandle koSource" "utf16 koSource" recordReason 15345
        "(startedLatch, startedSys)"]
    by (simp add: selfDefendTick_def replacedHandle_def currentFnOf_def toStringJ_def koHash)
  then show ?thesis
    by (simp add: ko_differs startSelfDefend_result baseline emptySys_def startedLatch_def
        startedSys_def)
qed

text \<open>
  Claim C10. After \<open>startSelfDefend\<close>, as long as the handle is deleted or its
  \<open>targetFn\<close> is falsy at every poll, each poll falls back to \<open>checkIntegrity\<close>, whose
  checksum is the baseline, and the polls leave the latch and the host state as they
  were, from the state right after startup as from any later state: \<open>onFail\<close> is not
  called.
\<close>

theorem selfDefend_handle_removed:
  assumes "startSelfDefend config s = Inr (h0, origHash, l, s1)" and "list_all handleGone hs"
  shows "foldl (\<lambda>st' h'. selfDefendTick (getProp config ''onFail'') origHash h' st') st hs = st
       \<and> foldl (\<lambda>st' h'. selfDefendTick (getProp config ''onFail'') origHash h' st') (l, s1) hs
           = (l, s1)
       \<and> \<not> already l \<and> host s1 = host s
       \<and> (handleGone h \<longrightarrow>
            currentFnOf h = checkIntegrity
            \<and> toStringJ (currentFnOf h) = Inr (utf16 checkIntegritySource)
            \<and> simpleHash (utf16 checkIntegritySource) = origHash)
       \<and> handleGone None \<and> handleGone (Some \<lparr>targetFn = None, originalHash = x\<rparr>)"
proof -
  from assms(1) have oh: "origHash = simpleHash (utf16 checkIntegritySource)"
    and l: "\<not> already l" and s1: "host s1 = host s"
    by (auto simp: startSelfDefend_result)
  show ?thesis
    using selfDefendTicks_gone [OF assms(2), of "getProp config ''onFail''" st]
      selfDefendTicks_gone [OF assms(2), of "getProp config ''onFail''" "(l, s1)"] l s1
    by (simp add: oh currentFnOf_gone toStringJ_checkIntegrity handleGone_def)
qed

theorem selfDefend_handle_removed_witness:
  "foldl (\<lambda>st h. selfDefendTick recordReason 15345 h st) (startedLatch, startedSys)
      [None, Some \<lparr>targetFn = None, originalHash = 0\<rparr>, None]
     = (startedLatch, startedSys)"
proof -
  have start: "startSelfDefend [''onFail'' \<mapsto> recordReason] emptySys
      = Inr (Some \<lparr>targetFn = Some checkIntegrity, originalHash = 15345\<rparr>, 15345,
             startedLatch, startedSys)"
    by (simp add: startSelfDefend_result baseline emptySys_def startedLatch_def startedSys_def)
  have gone: "list_all handleGone [None, Some \<lparr>targetFn = None, originalHash = 0\<rparr>, None]"
    by (simp add: handleGone_def)
  show ?thesis
    using selfDefend_handle_removed [OF start gone, of "(startedLatch, startedSys)"]
    by (simp add: getProp_def)
qed

section \<open>Exceptions at the poll boundary\<close>

lemma runChecks_throw: "antiDebugThrows w \<Longrightarrow> runChecks cb w st = st"
  by (cases "isDevToolsOpenBySize w"; cases "isDevToolsOpenByTiming w")
     (auto simp: antiDebugThrows_def runChecks_def runChecksTry_def)

lemma foldl_skip:
  assumes "\<And>x st. P x \<Longrightarrow> step st x = st"
  shows "foldl step st xs = foldl step st (filter (\<lambda>x. \<not> P x) xs)"
  using assms by (induction xs arbitrary: st) simp_all

text \<open>
  Claim C7. For each detector, a poll in which evaluating the heuristics raises an
  exception returns with the latch, the timers and the host state unchanged: nothing is
  detected and nothing escapes. The detector's timer therefore stays registered, and a
  sequence of polls gives the same result as the sequence without its throwing polls;
  an exception in the check at startup does not keep \<open>startAntiDebug\<close> from registering
  its timer.
\<close>

theorem poll_swallows_exceptions:
  "(antiDebugThrows w \<longrightarrow> runChecks cb w st = st \<and> antiDebugTick cb w st = st)
   \<and> (isl (isTampered snap doc) \<longrightarrow>
        domGuardRunCheck cb snap doc st = st \<and> domGuardTick cb snap doc st = st)
   \<and> (isl (toStringJ (currentFnOf h)) \<longrightarrow>
        selfDefendRunCheck cb origHash h st = st \<and> selfDefendTick cb origHash h st = st)
   \<and> foldl (\<lambda>st' w'. antiDebugTick cb w' st') st ws
       = foldl (\<lambda>st' w'. antiDebugTick cb w' st') st (filter (\<lambda>w'. \<not> antiDebugThrows w') ws)
   \<and> foldl (\<lambda>st' d. domGuardTick cb snap d st') st ds
       = foldl (\<lambda>st' d. domGuardTick cb snap d st') st
           (filter (\<lambda>d. \<not> isl (isTampered snap d)) ds)
   \<and> foldl (\<lambda>st' h'. selfDefendTick cb origHash h' st') st hs
       = foldl (\<lambda>st' h'. selfDefendTick cb origHash h' st') st
           (filter (\<lambda>h'. \<not> isl (toStringJ (currentFnOf h'))) hs)
   \<and> (antiDebugThrows w \<longrightarrow>
        startAntiDebug config w s =
          (\<lparr>already = False, intervalId = Some (nextId s)\<rparr>,
           s\<lparr>timers := timers s @ [(nextId s, 3000)], nextId := Suc (nextId s)\<rparr>))"
proof -
  have ad: "antiDebugTick cb w st = st" if "antiDebugThrows w" for w and st :: "latch \<times> 'a sys"
    using that by (simp add: antiDebugTick_def runChecks_throw)
  have dg: "domGuardRunCheck cb snap d st = st \<and> domGuardTick cb snap d st = st"
    if "isl (isTampered snap d)" for d and st :: "latch \<times> 'a sys"
    using that by (cases "isTampered snap d") (simp_all add: domGuardTick_def domGuardRunCheck_throw)
  have sd: "selfDefendRunCheck cb origHash h st = st \<and> selfDefendTick cb origHash h st = st"
    if "isl (toStringJ (currentFnOf h))" for h and st :: "latch \<times> 'a sys"
    using that
    by (cases "toStringJ (currentFnOf h)") (simp_all add: selfDefendTick_def selfDefendRunCheck_throw)
  have start: "startAntiDebug config w s =
          (\<lparr>already = False, intervalId = Some (nextId s)\<rparr>,
           s\<lparr>timers := timers s @ [(nextId s, 3000)], nextId := Suc (nextId s)\<rparr>)"
    if "antiDebugThrows w"
    using that
    by (simp add: startAntiDebug_def runChecks_throw newLatch_def setInterval_def
        DETECTION_INTERVAL_MS_def)
  have f1: "foldl (\<lambda>st' w'. antiDebugTick cb w' st') st ws
       = foldl (\<lambda>st' w'. antiDebugTick cb w' st') st (filter (\<lambda>w'. \<not> antiDebugThrows w') ws)"
    by (rule foldl_skip) (rule ad)
  have f2: "foldl (\<lambda>st' d. domGuardTick cb snap d st') st ds
       = foldl (\<lambda>st' d. domGuardTick cb snap d st') st
           (filter (\<lambda>d. \<not> isl (isTampered snap d)) ds)"
    by (rule foldl_skip) (simp add: dg)
  have f3: "foldl (\<lambda>st' h'. selfDefendTick cb origHash h' st') st hs
       = foldl (\<lambda>st' h'. selfDefendTick cb origHash h' st') st
           (filter (\<lambda>h'. \<not> isl (toStringJ (currentFnOf h'))) hs)"
    by (rule foldl_skip) (simp add: sd)
  from ad [of w st] runChecks_throw [of w cb st] dg [of doc st] sd [of h st] start f1 f2 f3
  show ?thesis by blast
qed

theorem poll_swallows_exceptions_witness:
  "antiDebugThrows throwingWindow
   \<and> antiDebugTick recordReason throwingWindow (armedLatch, armedSys) = (armedLatch, armedSys)
   \<and> foldl (\<lambda>st w. antiDebugTick recordReason w st) (armedLatch, armedSys)
        [throwingWindow, exampleWindow 200 100]
       = (\<lparr>already = True, intervalId = None\<rparr>,
          \<lparr>timers = [], nextId = 2, cleared = [1], host = [''window-size-heuristic'']\<rparr>)"
proof -
  have thr: "antiDebugThrows throwingWindow"
    by (simp add: antiDebugThrows_def throwingWindow_def isDevToolsOpenBySize_def)
  have ok: "\<not> antiDebugThrows (exampleWindow 200 100)"
    by (simp add: antiDebugThrows_def exampleWindow_def isDevToolsOpenBySize_def
        SIZE_THRESHOLD_def)
  note sw = poll_swallows_exceptions [of throwingWindow recordReason "(armedLatch, armedSys)"
      "[]" docMissing None 0 "[throwingWindow, exampleWindow 200 100]" "[]" "[]" Map.empty emptySys]
  from sw thr have a: "antiDebugTick recordReason throwingWindow (armedLatch, armedSys)
      = (armedLatch, armedSys)"
    by blast
  from sw have "foldl (\<lambda>st w. antiDebugTick recordReason w st) (armedLatch, armedSys)
        [throwingWindow, exampleWindow 200 100]
     = foldl (\<lambda>st w. antiDebugTick recordReason w st) (armedLatch, armedSys)
        (filter (\<lambda>w. \<not> antiDebugThrows w) [throwingWindow, exampleWindow 200 100])"
    by blast
  also have "\<dots> = antiDebugTick recordReason (exampleWindow 200 100) (armedLatch, armedSys)"
    using thr ok by simp
  also have "\<dots> = (\<lparr>already = True, intervalId = None\<rparr>,
          \<lparr>timers = [], nextId = 2, cleared = [1], host = [''window-size-heuristic'']\<rparr>)"
    by (simp add: antiDebugTick_def runChecks_def runChecksTry_def isDevToolsOpenBySize_def
        SIZE_THRESHOLD_def exampleWindow_def armedLatch_def armedSys_def triggerDetection_def
        recordReason_def clearInterval_def)
  finally show ?thesis
    using thr a by simp
qed

section \<open>Starting the detectors and locking the page\<close>

lemma snapshotLoop_map:
  "snapshotLoop sels doc acc = Inr snap \<Longrightarrow>
   snap = acc @ map (\<lambda>sel. \<lparr>selector = sel, exists = (doc sel \<noteq> Inr None),
       textLength = (case doc sel of Inr (Some x) \<Rightarrow> textLen x | _ \<Rightarrow> 0)\<rparr>) sels"
  by (induction sels doc acc rule: snapshotLoop.induct) (auto split: sum.splits option.splits)

text \<open>Right after the snapshot, on the same document, nothing is tampered.\<close>

lemma ratio_same: "\<not> ratio n n > TEXT_CHANGE_FACTOR"
  by (simp add: ratio_def TEXT_CHANGE_FACTOR_def Let_def max_def)

lemma isTampered_fresh:
  "isTampered (map (\<lambda>sel. \<lparr>selector = sel, exists = (doc sel \<noteq> Inr None),
       textLength = (case doc sel of Inr (Some x) \<Rightarrow> textLen x | _ \<Rightarrow> 0)\<rparr>) sels) doc
     \<noteq> Inr True"
  by (induction sels) (auto simp: ratio_same split: sum.splits option.splits)

lemma domGuardRunCheck_fresh:
  assumes "snapshotDom doc = Inr snap"
  shows "domGuardRunCheck cb snap doc st = st"
proof -
  have "isTampered snap doc \<noteq> Inr True"
    using snapshotLoop_map [OF assms [unfolded snapshotDom_def]] isTampered_fresh [of doc]
    by simp
  then show ?thesis
    by (cases "isTampered snap doc")
       (auto simp: domGuardRunCheck_def domGuardRunCheckTry_def)
qed

lemma startDomGuard_result:
  "startDomGuard config doc s =
     (case snapshotDom doc of
        Inl e \<Rightarrow> Inl e
      | Inr snap \<Rightarrow>
          Inr (snap, \<lparr>already = False, intervalId = Some (nextId s)\<rparr>,
               s\<lparr>timers := timers s @ [(nextId s, 3000)], nextId := Suc (nextId s)\<rparr>))"
  by (cases "snapshotDom doc")
     (simp_all add: startDomGuard_def domGuardRunCheck_fresh newLatch_def setInterval_def
       CHECK_INTERVAL_MS_def)

lemma init_result:
  "init doc s =
     (case snapshotDom doc of
        Inl e \<Rightarrow> Inl e
      | Inr snap \<Rightarrow>
          Inr \<lparr>antiDebugSt = None,
               domGuardSt = Some (snap, \<lparr>already = False, intervalId = Some (nextId s)\<rparr>),
               selfDefendSt = Some (simpleHash (utf16 checkIntegritySource),
                                    \<lparr>already = False, intervalId = Some (Suc (nextId s))\<rparr>),
               selfDefendInfo = Some \<lparr>targetFn = Some checkIntegrity,
                                      originalHash = simpleHash (utf16 checkIntegritySource)\<rparr>,
               world = s\<lparr>timers := timers s @ [(nextId s, 3000), (Suc (nextId s), 4000)],
                         nextId := Suc (Suc (nextId s))\<rparr>\<rparr>)"
  by (cases "snapshotDom doc")
     (simp_all add: init_def startDomGuard_result startSelfDefend_result)

lemma snapshotDom_docLen:
  "snapshotDom (docLen n) =
     Inr (map (\<lambda>sel. \<lparr>selector = sel, exists = True, textLength = n\<rparr>) PROTECTED_SELECTORS)"
  by (simp add: snapshotDom_def PROTECTED_SELECTORS_def docLen_def textLen_def)

lemma runChecks_new_timers:
  "timers (snd (runChecks cb w (newLatch, s))) = timers s
   \<and> nextId (snd (runChecks cb w (newLatch, s))) = nextId s"
  by (cases "isDevToolsOpenBySize w"; cases "isDevToolsOpenByTiming w"; cases cb)
     (auto simp: runChecks_def runChecksTry_def triggerDetection_def newLatch_def)

lemma startAntiDebug_timers:
  "timers (snd (startAntiDebug config w s)) = timers s @ [(nextId s, 3000)]"
  using runChecks_new_timers [of "getProp config ''onDetected''" w s]
  by (cases "runChecks (getProp config ''onDetected'') w (newLatch, s)")
     (simp add: startAntiDebug_def setInterval_def DETECTION_INTERVAL_MS_def)

lemma lockApp_fields:
  "lockLog (lockApp m u) = lockLog u @ [m]"
  "securityMessage (lockApp m u) = (case securityMessage u of None \<Rightarrow> None | Some old \<Rightarrow> Some m)"
  "buttons (lockApp m u) = map (\<lambda>btn. True) (buttons u)"
  "taskForm (lockApp m u) =
     map_option (\<lambda>f. f\<lparr>opacity := ''0.5'', pointerEvents := ''none''\<rparr>) (taskForm u)"
  by (simp_all add: lockApp_def setSecurityMessage_def Let_def split: option.splits)

lemma fire_lockApp: "fire src r u = lockApp (messageOf src) u"
  by (cases src) (simp_all add: fire_def onTamper_def onFail_def)

lemma fireAll_snoc: "fireAll (evs @ [ev]) u = lockApp (messageOf (fst ev)) (fireAll evs u)"
  by (simp add: fireAll_def fire_lockApp)

lemma fireAll_lockLog: "lockLog (fireAll evs u) = lockLog u @ map (\<lambda>ev. messageOf (fst ev)) evs"
  by (induction evs rule: rev_induct)
     (simp add: fireAll_def, simp add: fireAll_snoc lockApp_fields)

lemma fireAll_securityMessage:
  "evs \<noteq> [] \<Longrightarrow> securityMessage (fireAll evs u) =
     (case securityMessage u of None \<Rightarrow> None | Some old \<Rightarrow> Some (messageOf (fst (last evs))))"
proof (induction evs rule: rev_induct)
  case Nil
  then show ?case by simp
next
  case (snoc ev evs)
  show ?case
  proof (cases "evs = []")
    case True
    then show ?thesis
      by (simp add: fireAll_def fire_lockApp lockApp_fields split: option.splits)
  next
    case False
    with snoc.IH show ?thesis
      by (simp add: fireAll_snoc lockApp_fields split: option.splits)
  qed
qed

lemma fireAll_controls:
  "evs \<noteq> [] \<Longrightarrow> buttons (fireAll evs u) = map (\<lambda>btn. True) (buttons u)
     \<and> taskForm (fireAll evs u) = taskForm (lockApp m u)"
proof (induction evs rule: rev_induct)
  case Nil
  then show ?case by simp
next
  case (snoc ev evs)
  show ?case
  proof (cases "evs = []")
    case True
    then show ?thesis
      by (simp add: fireAll_def fire_lockApp lockApp_fields split: option.splits)
  next
    case False
    with snoc.IH show ?thesis
      by (simp add: fireAll_snoc lockApp_fields option.map_comp comp_def)
  qed
qed

text \<open>
  Claim C2. \<open>init\<close> starts the DOM guard and the self-defend checker, each with its
  timer (3000 ms and 4000 ms) and its locking callback; it does not start the
  anti-debug detector, whose call is commented out. This holds for every document the
  snapshot can read, and is evaluated on a page where all four protected elements exist.
\<close>

theorem init_skips_antiDebug:
  "(case init doc s of
      Inl e \<Rightarrow> snapshotDom doc = Inl e
    | Inr a \<Rightarrow> antiDebugSt a = None
        \<and> timers (world a) = timers s @ [(nextId s, 3000), (Suc (nextId s), 4000)])
   \<and> map_sum id antiDebugSt (init (docLen 100) exampleSys) = Inr None
   \<and> map_sum id (\<lambda>a. timers (world a)) (init (docLen 100) exampleSys)
       = Inr [(1, 3000), (2, 4000)]"
  by (cases "snapshotDom doc")
     (simp_all add: init_result snapshotDom_docLen exampleSys_def)

text \<open>
  Claim C1, as the code has it. \<open>lockApp\<close> has no latch of its own: every firing of a
  registered callback invokes it once more, so the trace of lock actions grows by one
  message per firing; after one or more firings the security message shown is the one of
  the source that fired last, while the buttons and the form are as the first firing
  left them, disabled.
\<close>

theorem lockApp_every_firing:
  "lockLog (fireAll evs u) = lockLog u @ map (\<lambda>ev. messageOf (fst ev)) evs
   \<and> (evs \<noteq> [] \<longrightarrow>
        securityMessage (fireAll evs u) =
          (case securityMessage u of None \<Rightarrow> None
           | Some old \<Rightarrow> Some (messageOf (fst (last evs))))
        \<and> buttons (fireAll evs u) = map (\<lambda>btn. True) (buttons u)
        \<and> taskForm (fireAll evs u) = taskForm (fire (fst (hd evs)) (snd (hd evs)) u))"
  using fireAll_lockLog [of evs u] fireAll_securityMessage [of evs u]
    fireAll_controls [of evs u "messageOf (fst (hd evs))"]
  by (simp add: fire_lockApp)

theorem lockApp_every_firing_witness:
  "fireAll [(DomGuard, ''snapshot-mismatch''), (SelfDefend, ''function-source-changed'')] exampleUi
     = \<lparr>securityMessage = Some ''Integrity check failed. App locked.'',
        taskForm = Some \<lparr>opacity = ''0.5'', pointerEvents = ''none''\<rparr>,
        buttons = [True, True, True],
        lockLog = [''DOM tampering detected. App locked.'',
                   ''Integrity check failed. App locked.'']\<rparr>"
proof -
  let ?evs = "[(DomGuard, ''snapshot-mismatch''), (SelfDefend, ''function-source-changed'')]"
  have ne: "?evs \<noteq> []" by simp
  have "lockLog (fireAll ?evs exampleUi) = lockLog exampleUi @ map (\<lambda>ev. messageOf (fst ev)) ?evs
      \<and> securityMessage (fireAll ?evs exampleUi) =
          (case securityMessage exampleUi of None \<Rightarrow> None
           | Some old \<Rightarrow> Some (messageOf (fst (last ?evs))))
      \<and> buttons (fireAll ?evs exampleUi) = map (\<lambda>btn. True) (buttons exampleUi)
      \<and> taskForm (fireAll ?evs exampleUi) = taskForm (fire (fst (hd ?evs)) (snd (hd ?evs)) exampleUi)"
    using lockApp_every_firing [of ?evs exampleUi] ne by blast
  then show ?thesis
    by (cases "fireAll ?evs exampleUi")
       (simp add: exampleUi_def fire_lockApp lockApp_fields)
qed

text \<open>
  The claim as stated fails on a run of the page: after \<open>init\<close>, the DOM guard detects
  the cut task list and the self-defend checker detects the replaced handle; \<open>lockApp\<close>
  has then run twice, and the message shown is that of the second source.
\<close>

theorem lock_twice_counterexample:
  "exampleLocked =
     Inr \<lparr>securityMessage = Some ''Integrity check failed. App locked.'',
          taskForm = Some \<lparr>opacity = ''0.5'', pointerEvents = ''none''\<rparr>,
          buttons = [True, True, True],
          lockLog = [''DOM tampering detected. App locked.'',
                     ''Integrity check failed. App locked.'']\<rparr>"
proof -
  have tampered: "isTampered snap100 shrunkListDoc = Inr True"
    by (simp add: snap100_def PROTECTED_SELECTORS_def shrunkListDoc_def docLen_def textLen_def
        ratio_def TEXT_CHANGE_FACTOR_def)
  have src: "toStringJ (currentFnOf (replacedHandle hackedSource)) = Inr (utf16 hackedSource)"
    by (simp add: replacedHandle_def currentFnOf_def toStringJ_def)
  show ?thesis
    using selfDefendRunCheck_eq [OF src, of onFail 15345]
    by (simp add: exampleLocked_def init_result snapshotDom_docLen baseline exampleSys_def
        snap100_def [symmetric] domGuardTick_def domGuardRunCheck_tampered [OF tampered]
        triggerTamper_def clearInterval_def onTamper_def Let_def
        selfDefendTick_def hackedHash triggerFail_def onFail_def
        lockApp_def setSecurityMessage_def exampleUi_def)
qed

text \<open>
  Claim C3, as the code has it. The start functions read one property of the config
  object, the callback; two config objects with the same callback start a detector in
  the same way, whatever else they set. The timers are registered with the periods
  3000, 3000 and 4000 ms, and the thresholds are the constants 160, 100 and 3 of the
  modules; the timing heuristic compares the difference of its two readings, as double
  subtraction rounds it, with 100.
\<close>

theorem start_ignores_overrides:
  "(config ''onDetected'' = config' ''onDetected''
      \<longrightarrow> startAntiDebug config w s = startAntiDebug config' w s)
   \<and> (config ''onTamper'' = config' ''onTamper''
      \<longrightarrow> startDomGuard config doc s = startDomGuard config' doc s)
   \<and> (config ''onFail'' = config' ''onFail''
      \<longrightarrow> startSelfDefend config s = startSelfDefend config' s)
   \<and> timers (snd (startAntiDebug config w s)) = timers s @ [(nextId s, 3000)]
   \<and> (case startDomGuard config doc s of
         Inl e \<Rightarrow> True
       | Inr r \<Rightarrow> timers (snd (snd r)) = timers s @ [(nextId s, 3000)])
   \<and> (case startSelfDefend config s of
         Inl e \<Rightarrow> False
       | Inr r \<Rightarrow> timers (snd (snd (snd r))) = timers s @ [(nextId s, 4000)])
   \<and> SIZE_THRESHOLD = 160 \<and> TEXT_CHANGE_FACTOR = 3
   \<and> isDevToolsOpenByTiming (w\<lparr>perfStart := Inr t0, perfEnd := Inr t1\<rparr>)
       = Inr (dgt (dsub t1 t0) 100)"
proof -
  have a: "config ''onDetected'' = config' ''onDetected''
      \<longrightarrow> startAntiDebug config w s = startAntiDebug config' w s"
    by (simp add: startAntiDebug_def getProp_def)
  have b: "config ''onTamper'' = config' ''onTamper''
      \<longrightarrow> startDomGuard config doc s = startDomGuard config' doc s"
    by (simp add: startDomGuard_def getProp_def)
  have c: "config ''onFail'' = config' ''onFail''
      \<longrightarrow> startSelfDefend config s = startSelfDefend config' s"
    by (simp add: startSelfDefend_def getProp_def)
  have d: "(case startDomGuard config doc s of
         Inl e \<Rightarrow> True
       | Inr r \<Rightarrow> timers (snd (snd r)) = timers s @ [(nextId s, 3000)])"
    by (cases "snapshotDom doc") (simp_all add: startDomGuard_result)
  have e: "(case startSelfDefend config s of
         Inl e \<Rightarrow> False
       | Inr r \<Rightarrow> timers (snd (snd (snd r))) = timers s @ [(nextId s, 4000)])"
    by (simp add: startSelfDefend_result)
  have f: "isDevToolsOpenByTiming (w\<lparr>perfStart := Inr t0, perfEnd := Inr t1\<rparr>)
      = Inr (dgt (dsub t1 t0) 100)"
    by (simp add: isDevToolsOpenByTiming_def)
  from a b c d e f startAntiDebug_timers [of config w s] show ?thesis
    by (simp add: SIZE_THRESHOLD_def TEXT_CHANGE_FACTOR_def)
qed

theorem start_ignores_overrides_witness:
  "startAntiDebug overrideConfig (exampleWindow 200 100) emptySys
     = startAntiDebug [''onDetected'' \<mapsto> recordReason] (exampleWindow 200 100) emptySys
   \<and> startDomGuard [''onTamper'' \<mapsto> recordReason, ''CHECK_INTERVAL_MS'' \<mapsto> Num 10,
                      ''TEXT_CHANGE_FACTOR'' \<mapsto> Num 100] (docLen 100) emptySys
     = startDomGuard [''onTamper'' \<mapsto> recordReason] (docLen 100) emptySys
   \<and> startSelfDefend [''onFail'' \<mapsto> recordReason, ''SELFDEFEND_CHECK_INTERVAL_MS'' \<mapsto> Num 10]
        emptySys
     = startSelfDefend [''onFail'' \<mapsto> recordReason] emptySys
   \<and> isDevToolsOpenByTiming
        ((exampleWindow 0 0)\<lparr>perfStart := Inr double_0_2, perfEnd := Inr double_100_2\<rparr>)
       = Inr False
   \<and> isDevToolsOpenByTiming
        ((exampleWindow 0 0)\<lparr>perfStart := Inr double_0_2, perfEnd := Inr double_105_5\<rparr>)
       = Inr True"
proof -
  have a: "overrideConfig ''onDetected'' = [''onDetected'' \<mapsto> recordReason] ''onDetected''"
    by (simp add: overrideConfig_def)
  have b: "[''onTamper'' \<mapsto> recordReason, ''CHECK_INTERVAL_MS'' \<mapsto> Num 10,
            ''TEXT_CHANGE_FACTOR'' \<mapsto> Num 100] ''onTamper''
         = [''onTamper'' \<mapsto> recordReason] ''onTamper''"
    by simp
  have c: "[''onFail'' \<mapsto> recordReason, ''SELFDEFEND_CHECK_INTERVAL_MS'' \<mapsto> Num 10] ''onFail''
         = [''onFail'' \<mapsto> recordReason] ''onFail''"
    by simp
  from a start_ignores_overrides [of overrideConfig "[''onDetected'' \<mapsto> recordReason]"
      "exampleWindow 200 100" emptySys]
  have "startAntiDebug overrideConfig (exampleWindow 200 100) emptySys
     = startAntiDebug [''onDetected'' \<mapsto> recordReason] (exampleWindow 200 100) emptySys"
    by blast
  moreover from b start_ignores_overrides [of
      "[''onTamper'' \<mapsto> recordReason, ''CHECK_INTERVAL_MS'' \<mapsto> Num 10,
        ''TEXT_CHANGE_FACTOR'' \<mapsto> Num 100]" "[''onTamper'' \<mapsto> recordReason]" _ emptySys
      "docLen 100"]
  have "startDomGuard [''onTamper'' \<mapsto> recordReason, ''CHECK_INTERVAL_MS'' \<mapsto> Num 10,
                      ''TEXT_CHANGE_FACTOR'' \<mapsto> Num 100] (docLen 100) emptySys
     = startDomGuard [''onTamper'' \<mapsto> recordReason] (docLen 100) emptySys"
    by blast
  moreover from c start_ignores_overrides [of
      "[''onFail'' \<mapsto> recordReason, ''SELFDEFEND_CHECK_INTERVAL_MS'' \<mapsto> Num 10]"
      "[''onFail'' \<mapsto> recordReason]" _ emptySys]
  have "startSelfDefend [''onFail'' \<mapsto> recordReason, ''SELFDEFEND_CHECK_INTERVAL_MS'' \<mapsto> Num 10]
        emptySys
     = startSelfDefend [''onFail'' \<mapsto> recordReason] emptySys"
    by blast
  moreover from start_ignores_overrides [where w = "exampleWindow 0 0" and ?t0.0 = double_0_2
      and ?t1.0 = double_100_2]
  have "isDevToolsOpenByTiming
        ((exampleWindow 0 0)\<lparr>perfStart := Inr double_0_2, perfEnd := Inr double_100_2\<rparr>)
       = Inr (dgt (dsub double_100_2 double_0_2) 100)"
    by blast
  moreover from start_ignores_overrides [where w = "exampleWindow 0 0" and ?t0.0 = double_0_2
      and ?t1.0 = double_105_5]
  have "isDevToolsOpenByTiming
        ((exampleWindow 0 0)\<lparr>perfStart := Inr double_0_2, perfEnd := Inr double_105_5\<rparr>)
       = Inr (dgt (dsub double_105_5 double_0_2) 100)"
    by blast
  ultimately show ?thesis
    by (simp only: dgt_examples simp_thms)
qed

text \<open>
  The claim as stated fails: a config object that sets \<open>SIZE_THRESHOLD\<close> to 1000 and
  \<open>DETECTION_INTERVAL_MS\<close> to 10 still has a width difference of 200 detected, and the
  timer registered with a period of 3000 ms.
\<close>

theorem override_ignored_counterexample:
  "overrideConfig ''SIZE_THRESHOLD'' = Some (Num 1000)
   \<and> overrideConfig ''DETECTION_INTERVAL_MS'' = Some (Num 10)
   \<and> isDevToolsOpenBySize (exampleWindow 200 100) = Inr True
   \<and> startAntiDebug overrideConfig (exampleWindow 200 100) emptySys
     = (\<lparr>already = True, intervalId = Some 1\<rparr>,
        \<lparr>timers = [(1, 3000)], nextId = 2, cleared = [], host = [''window-size-heuristic'']\<rparr>)"
  by (simp add: overrideConfig_def startAntiDebug_def getProp_def runChecks_def runChecksTry_def
      isDevToolsOpenBySize_def SIZE_THRESHOLD_def exampleWindow_def emptySys_def newLatch_def
      triggerDetection_def recordReason_def setInterval_def DETECTION_INTERVAL_MS_def)

end
